theory Spec2Isabelle
  imports Main "HOL-Library.Char_ord" "HOL-Library.List_Lexorder" "HOL-Library.Product_Lexorder"
begin

section \<open>Strings\<close>

text \<open>
  A Python \<^verbatim>\<open>str\<close> is modelled as a \<^typ>\<open>string\<close> whose characters stand for the code
  points below 256. Comparison of strings is Python's: lexicographic on code points.
  \<^verbatim>\<open>str.isspace\<close> (which \<^verbatim>\<open>str.strip()\<close> and the regular expression \<^verbatim>\<open>\s\<close> both use)
  holds in that range for 0x09-0x0D, 0x1C-0x20, 0x85 and 0xA0.
\<close>

definition is_space :: "char \<Rightarrow> bool" where
  "is_space c = ((of_char c :: nat) \<in> {9, 10, 11, 12, 13, 28, 29, 30, 31, 32, 133, 160})"

definition strip :: "string \<Rightarrow> string" where
  "strip s = rev (dropWhile is_space (rev (dropWhile is_space s)))"

text \<open>\<^verbatim>\<open>re.sub(r"\s+", " ", text)\<close>: every maximal run of whitespace becomes one space.\<close>

function collapse_ws :: "string \<Rightarrow> string" where
  "collapse_ws [] = []"
| "collapse_ws (c # cs) =
     (if is_space c then CHR '' '' # collapse_ws (dropWhile is_space cs)
      else c # collapse_ws cs)"
  by pat_completeness auto
termination
  by (relation "measure length") (auto simp: length_dropWhile_le less_Suc_eq_le)

text \<open>\<^verbatim>\<open>s.startswith(p)\<close> and \<^verbatim>\<open>s.endswith(p)\<close>.\<close>

fun startswith :: "string \<Rightarrow> string \<Rightarrow> bool" where
  "startswith s [] = True"
| "startswith [] (p # ps) = False"
| "startswith (c # cs) (p # ps) = (c = p \<and> startswith cs ps)"

definition endswith :: "string \<Rightarrow> string \<Rightarrow> bool" where
  "endswith s p = startswith (rev s) (rev p)"

text \<open>\<^verbatim>\<open>p in s\<close> for two strings: \<open>p\<close> occurs in \<open>s\<close> as a substring.\<close>

fun str_contains :: "string \<Rightarrow> string \<Rightarrow> bool" where
  "str_contains [] p = (p = [])"
| "str_contains (c # cs) p = (startswith (c # cs) p \<or> str_contains cs p)"

text \<open>\<^verbatim>\<open>str.lower()\<close> on code points below 256: A-Z and the Latin-1 capitals move by 32.\<close>

definition lower_char :: "char \<Rightarrow> char" where
  "lower_char c =
     (let n = (of_char c :: nat)
      in if (65 \<le> n \<and> n \<le> 90) \<or> (192 \<le> n \<and> n \<le> 222 \<and> n \<noteq> 215) then char_of (n + 32) else c)"

definition lower :: "string \<Rightarrow> string" where
  "lower s = map lower_char s"

text \<open>Decimal rendering of numbers, as an f-string does it.\<close>

fun str_of_nat :: "nat \<Rightarrow> string" where
  "str_of_nat n =
     (if n < 10 then [char_of (48 + n)]
      else str_of_nat (n div 10) @ [char_of (48 + n mod 10)])"

declare str_of_nat.simps [simp del]

definition str_of_int :: "int \<Rightarrow> string" where
  "str_of_int i = (if i < 0 then CHR ''-'' # str_of_nat (nat (- i)) else str_of_nat (nat i))"

text \<open>
  A reading of the local clock (\<^verbatim>\<open>datetime.now()\<close>), with the fields that \<open>now_time\<close>
  formats and the seconds. \<open>now_time\<close> is \<^verbatim>\<open>strftime("%H:%M")\<close> of the reading: hour and
  minute, each in two digits.
\<close>

record datetime =
  dt_hour :: nat
  dt_minute :: nat
  dt_second :: nat

definition two_digits :: "nat \<Rightarrow> string" where
  "two_digits n = (if n < 10 then CHR ''0'' # str_of_nat n else str_of_nat n)"

definition now_time :: "datetime \<Rightarrow> string" where
  "now_time now = two_digits (dt_hour now) @ '':'' @ two_digits (dt_minute now)"

section \<open>Dictionaries in insertion order\<close>

text \<open>
  A Python \<^verbatim>\<open>dict\<close> iterates in insertion order, which the handlers observe
  (\<^verbatim>\<open>next(iter(chat_sessions.keys()))\<close>, the stable sort of the listing), so the registry is
  an association list. Assigning to a present key replaces the value in place; assigning
  to an absent key appends.
\<close>

fun dict_set :: "('k \<times> 'v) list \<Rightarrow> 'k \<Rightarrow> 'v \<Rightarrow> ('k \<times> 'v) list" where
  "dict_set [] k v = [(k, v)]"
| "dict_set ((k', v') # d) k v = (if k' = k then (k, v) # d else (k', v') # dict_set d k v)"

definition dict_del :: "('k \<times> 'v) list \<Rightarrow> 'k \<Rightarrow> ('k \<times> 'v) list" where
  "dict_del d k = filter (\<lambda>kv. fst kv \<noteq> k) d"

definition dict_keys :: "('k \<times> 'v) list \<Rightarrow> 'k list" where
  "dict_keys d = map fst d"

abbreviation dict_get :: "('k \<times> 'v) list \<Rightarrow> 'k \<Rightarrow> 'v option" where
  "dict_get d k \<equiv> map_of d k"

section \<open>The session registry\<close>

text \<open>
  A part of a turn is a text part or an inline-data (image) part with its bytes and MIME
  type. A turn (\<^verbatim>\<open>types.Content\<close>) has a role, which is a string, and its parts.
\<close>

datatype part = TextPart string | InlineData string string

record content =
  role :: string
  parts :: "part list"

record session =
  history :: "content list"
  created_at :: string
  title :: string
  pinned :: bool

record state =
  chat_sessions :: "(string \<times> session) list"
  current_session_id :: "string option"

definition initial :: state where
  "initial = \<lparr>chat_sessions = [], current_session_id = None\<rparr>"

datatype py_error = KeyError | TypeError | AttributeError

datatype http_error = Http404 | Http500 py_error

definition new_session_title :: "state \<Rightarrow> string" where
  "new_session_title s = ''New Chat '' @ str_of_nat (length (chat_sessions s) + 1)"

text \<open>
  \<open>create_session_object\<close> reads the clock twice: \<open>now_ts\<close> is
  \<^verbatim>\<open>int(datetime.now().timestamp())\<close> and \<open>now_iso\<close> is \<^verbatim>\<open>datetime.now().isoformat()\<close>.
  The title is computed before the record is stored.
\<close>

definition create_session_object :: "int \<Rightarrow> string \<Rightarrow> state \<Rightarrow> state \<times> string" where
  "create_session_object now_ts now_iso s =
     (let session_id =
            ''session_'' @ str_of_nat (length (chat_sessions s) + 1) @ ''_'' @ str_of_int now_ts;
          data = \<lparr>history = [], created_at = now_iso, title = new_session_title s, pinned = False\<rparr>
      in (s\<lparr>chat_sessions := dict_set (chat_sessions s) session_id data\<rparr>, session_id))"

text \<open>
  \<open>get_or_create_default_session\<close> returns the session stored under the current id; the
  model returns the id with it, since callers mutate the session through that reference.
  \<^verbatim>\<open>chat_sessions[current_session_id]\<close> raises \<^verbatim>\<open>KeyError\<close> on an id that is not a key.
\<close>

definition get_or_create_default_session ::
  "int \<Rightarrow> string \<Rightarrow> state \<Rightarrow> py_error + (state \<times> string \<times> session)" where
  "get_or_create_default_session now_ts now_iso s =
     (let s' = (if chat_sessions s = []
                then (let (s1, sid) = create_session_object now_ts now_iso s
                      in s1\<lparr>current_session_id := Some sid\<rparr>)
                else s)
      in case current_session_id s' of
           None \<Rightarrow> Inl KeyError
         | Some c \<Rightarrow>
             (case dict_get (chat_sessions s') c of
                None \<Rightarrow> Inl KeyError
              | Some sess \<Rightarrow> Inr (s', c, sess)))"

subsection \<open>Listing\<close>

record summary =
  item_id :: string
  item_title :: string
  item_created_at :: string
  message_count :: nat
  item_pinned :: bool

definition summarize :: "string \<times> session \<Rightarrow> summary" where
  "summarize kv =
     \<lparr>item_id = fst kv,
      item_title = title (snd kv),
      item_created_at = created_at (snd kv),
      message_count = length (filter (\<lambda>c. role c = ''user'') (history (snd kv))),
      item_pinned = pinned (snd kv)\<rparr>"

text \<open>
  \<^verbatim>\<open>list.sort(key=..., reverse=True)\<close> is a stable sort into descending key order: items
  with equal keys keep their original relative order.
\<close>

fun insort_desc :: "('a \<Rightarrow> 'k::linorder) \<Rightarrow> 'a \<Rightarrow> 'a list \<Rightarrow> 'a list" where
  "insort_desc key x [] = [x]"
| "insort_desc key x (y # ys) =
     (if key y \<le> key x then x # y # ys else y # insort_desc key x ys)"

definition sort_reverse :: "('a \<Rightarrow> 'k::linorder) \<Rightarrow> 'a list \<Rightarrow> 'a list" where
  "sort_reverse key xs = foldr (insort_desc key) xs []"

definition sort_key_of :: "summary \<Rightarrow> bool \<times> string" where
  "sort_key_of x = (\<not> item_pinned x, item_created_at x)"

definition get_sessions :: "state \<Rightarrow> summary list \<times> string option" where
  "get_sessions s =
     (sort_reverse sort_key_of (map summarize (chat_sessions s)), current_session_id s)"

subsection \<open>Fetching one session\<close>

text \<open>
  A \<^verbatim>\<open>types.Part\<close> has every field as an attribute, so both \<^verbatim>\<open>hasattr\<close> tests hold for
  every part: a part with non-empty text is shown as text, every other part as an image.
\<close>

fun part_view :: "part \<Rightarrow> string \<times> string" where
  "part_view (TextPart t) = (if t \<noteq> [] then (''text'', t) else (''image'', ''image_data''))"
| "part_view (InlineData b m) = (''image'', ''image_data'')"

record message_view =
  msg_role :: string
  timestamp :: string
  msg_parts :: "(string \<times> string) list"

record session_view =
  view_id :: string
  view_title :: string
  view_created_at :: string
  messages :: "message_view list"

text \<open>
  \<open>now_time()\<close> is called once for each message while the response is built; \<open>clock i\<close> is
  the reading of the clock in the call for the message at index \<open>i\<close>.
\<close>

definition get_session :: "(nat \<Rightarrow> datetime) \<Rightarrow> string \<Rightarrow> state \<Rightarrow> http_error + session_view" where
  "get_session clock session_id s =
     (case dict_get (chat_sessions s) session_id of
        None \<Rightarrow> Inl Http404
      | Some sess \<Rightarrow>
          Inr \<lparr>view_id = session_id,
               view_title = title sess,
               view_created_at = created_at sess,
               messages =
                 map (\<lambda>(i, c). \<lparr>msg_role = role c, timestamp = now_time (clock i),
                                 msg_parts = map part_view (parts c)\<rparr>)
                     (enumerate 0 (history sess))\<rparr>)"

subsection \<open>Creating, switching, deleting\<close>

definition create_session :: "int \<Rightarrow> string \<Rightarrow> state \<Rightarrow> state \<times> (string \<times> string)" where
  "create_session now_ts now_iso s =
     (let (s1, sid) = create_session_object now_ts now_iso s;
          s2 = s1\<lparr>current_session_id := Some sid\<rparr>
      in (s2, (sid, case dict_get (chat_sessions s2) sid of Some d \<Rightarrow> title d | None \<Rightarrow> [])))"

definition switch_session :: "string \<Rightarrow> state \<Rightarrow> state \<times> (http_error + string)" where
  "switch_session session_id s =
     (if session_id \<notin> set (dict_keys (chat_sessions s)) then (s, Inl Http404)
      else (s\<lparr>current_session_id := Some session_id\<rparr>, Inr session_id))"

text \<open>The response of a successful delete carries the current id (\<^verbatim>\<open>None\<close> is JSON null).\<close>

definition delete_session ::
  "int \<Rightarrow> string \<Rightarrow> string \<Rightarrow> state \<Rightarrow> state \<times> (http_error + string option)" where
  "delete_session now_ts now_iso session_id s =
     (if session_id \<notin> set (dict_keys (chat_sessions s)) then (s, Inl Http404)
      else
        let s1 = s\<lparr>chat_sessions := dict_del (chat_sessions s) session_id\<rparr>
        in if current_session_id s1 = Some session_id
           then (case dict_keys (chat_sessions s1) of
                   k # ks \<Rightarrow> (s1\<lparr>current_session_id := Some k\<rparr>, Inr (Some k))
                 | [] \<Rightarrow>
                     (let (s2, sid) = create_session_object now_ts now_iso s1
                      in (s2\<lparr>current_session_id := Some sid\<rparr>, Inr (Some sid))))
           else (s1, Inr (current_session_id s1)))"

subsection \<open>Request bodies\<close>

text \<open>
  A parsed JSON value. Numbers are integers here: the handlers only test a number for
  being zero. An object is the parsed \<^verbatim>\<open>dict\<close> (its keys are distinct).
\<close>

datatype json =
  JNull | JBool bool | JNum int | JStr string | JArr "json list" | JObj "(string \<times> json) list"

fun truthy :: "json \<Rightarrow> bool" where
  "truthy JNull = False"
| "truthy (JBool b) = b"
| "truthy (JNum n) = (n \<noteq> 0)"
| "truthy (JStr t) = (t \<noteq> [])"
| "truthy (JArr xs) = (xs \<noteq> [])"
| "truthy (JObj kvs) = (kvs \<noteq> [])"

text \<open>\<^verbatim>\<open>request.get_json(silent=True) or {}\<close>; \<open>None\<close> is a body that did not parse.\<close>

definition json_or_empty :: "json option \<Rightarrow> json" where
  "json_or_empty body =
     (case body of None \<Rightarrow> JObj [] | Some j \<Rightarrow> if truthy j then j else JObj [])"

text \<open>\<^verbatim>\<open>k in data\<close>, \<^verbatim>\<open>data[k]\<close> and \<^verbatim>\<open>data.get(k)\<close> for a string \<open>k\<close>.\<close>

fun py_in :: "string \<Rightarrow> json \<Rightarrow> py_error + bool" where
  "py_in k (JObj kvs) = Inr (k \<in> set (map fst kvs))"
| "py_in k (JArr xs) = Inr (JStr k \<in> set xs)"
| "py_in k (JStr t) = Inr (str_contains t k)"
| "py_in k JNull = Inl TypeError"
| "py_in k (JBool b) = Inl TypeError"
| "py_in k (JNum n) = Inl TypeError"

fun py_getitem :: "json \<Rightarrow> string \<Rightarrow> py_error + json" where
  "py_getitem (JObj kvs) k = (case map_of kvs k of None \<Rightarrow> Inl KeyError | Some v \<Rightarrow> Inr v)"
| "py_getitem JNull k = Inl TypeError"
| "py_getitem (JBool b) k = Inl TypeError"
| "py_getitem (JNum n) k = Inl TypeError"
| "py_getitem (JStr t) k = Inl TypeError"
| "py_getitem (JArr xs) k = Inl TypeError"

fun py_dict_get :: "json \<Rightarrow> string \<Rightarrow> py_error + json" where
  "py_dict_get (JObj kvs) k = Inr (case map_of kvs k of None \<Rightarrow> JNull | Some v \<Rightarrow> v)"
| "py_dict_get JNull k = Inl AttributeError"
| "py_dict_get (JBool b) k = Inl AttributeError"
| "py_dict_get (JNum n) k = Inl AttributeError"
| "py_dict_get (JStr t) k = Inl AttributeError"
| "py_dict_get (JArr xs) k = Inl AttributeError"

text \<open>\<^verbatim>\<open>(v or "").strip()\<close>: only a string has \<^verbatim>\<open>strip\<close>.\<close>

definition or_empty_strip :: "json \<Rightarrow> py_error + string" where
  "or_empty_strip v =
     (if truthy v then (case v of JStr t \<Rightarrow> Inr (strip t) | _ \<Rightarrow> Inl AttributeError)
      else Inr [])"

subsection \<open>Updating\<close>

text \<open>A session record is mutated in place through its key.\<close>

definition with_session :: "state \<Rightarrow> string \<Rightarrow> (session \<Rightarrow> session) \<Rightarrow> state" where
  "with_session s sid f =
     s\<lparr>chat_sessions := map (\<lambda>kv. if fst kv = sid then (fst kv, f (snd kv)) else kv) (chat_sessions s)\<rparr>"

definition update_title :: "string \<Rightarrow> json \<Rightarrow> state \<Rightarrow> py_error + state" where
  "update_title session_id data s =
     (case py_in ''title'' data of
        Inl e \<Rightarrow> Inl e
      | Inr present \<Rightarrow>
          if \<not> present then Inr s
          else (case py_getitem data ''title'' of
                  Inl e \<Rightarrow> Inl e
                | Inr v \<Rightarrow>
                    (case or_empty_strip v of
                       Inl e \<Rightarrow> Inl e
                     | Inr t \<Rightarrow>
                         Inr (with_session s session_id
                                (\<lambda>d. d\<lparr>title := (if t \<noteq> [] then t else title d)\<rparr>)))))"

definition update_pinned :: "string \<Rightarrow> json \<Rightarrow> state \<Rightarrow> py_error + state" where
  "update_pinned session_id data s =
     (case py_in ''pinned'' data of
        Inl e \<Rightarrow> Inl e
      | Inr present \<Rightarrow>
          if \<not> present then Inr s
          else (case py_getitem data ''pinned'' of
                  Inl e \<Rightarrow> Inl e
                | Inr v \<Rightarrow> Inr (with_session s session_id (\<lambda>d. d\<lparr>pinned := truthy v\<rparr>))))"

text \<open>An exception that escapes a handler is answered with status 500.\<close>

definition update_session :: "string \<Rightarrow> json option \<Rightarrow> state \<Rightarrow> state \<times> (http_error + unit)" where
  "update_session session_id body s =
     (if session_id \<notin> set (dict_keys (chat_sessions s)) then (s, Inl Http404)
      else
        let data = json_or_empty body
        in case update_title session_id data s of
             Inl e \<Rightarrow> (s, Inl (Http500 e))
           | Inr s1 \<Rightarrow>
               (case update_pinned session_id data s1 of
                  Inl e \<Rightarrow> (s1, Inl (Http500 e))
                | Inr s2 \<Rightarrow> (s2, Inr ())))"

text \<open>
  The update as the specification words it, for comparison with \<open>update_session\<close>: a
  title that is provided is trimmed and applied only when the result is not empty, a
  \<open>pinned\<close> value that is provided is coerced to a boolean, and a field that is not provided
  keeps its value.
\<close>

definition update_spec :: "string option \<Rightarrow> json option \<Rightarrow> session \<Rightarrow> session" where
  "update_spec new_title new_pinned d =
     d\<lparr>title := (case new_title of
                   None \<Rightarrow> title d
                 | Some t \<Rightarrow> if strip t \<noteq> [] then strip t else title d),
       pinned := (case new_pinned of None \<Rightarrow> pinned d | Some v \<Rightarrow> truthy v)\<rparr>"

subsection \<open>The index page and reset\<close>

text \<open>
  \<open>get_or_create_default_session\<close> can only raise when the registry was not empty, that
  is, when it had changed nothing: the state after the exception is the state before.
\<close>

definition index :: "int \<Rightarrow> string \<Rightarrow> state \<Rightarrow> state \<times> (http_error + unit)" where
  "index now_ts now_iso s =
     (case get_or_create_default_session now_ts now_iso s of
        Inl e \<Rightarrow> (s, Inl (Http500 e))
      | Inr (s', c, sess) \<Rightarrow> (s', Inr ()))"

definition reset :: "int \<Rightarrow> string \<Rightarrow> state \<Rightarrow> state \<times> (http_error + unit)" where
  "reset now_ts now_iso s =
     (case get_or_create_default_session now_ts now_iso s of
        Inl e \<Rightarrow> (s, Inl (Http500 e))
      | Inr (s', c, sess) \<Rightarrow> (with_session s' c (\<lambda>d. d\<lparr>history := []\<rparr>), Inr ()))"

section \<open>Chat\<close>

definition slug_from_text :: "string \<Rightarrow> nat \<Rightarrow> string option" where
  "slug_from_text text limit =
     (let t = take limit (collapse_ws (strip text)) in if t \<noteq> [] then Some t else None)"

text \<open>
  An uploaded file (\<^verbatim>\<open>FileStorage\<close>) is falsy when its filename is empty or missing.
  \<open>mimetype\<close> is the declared content type without parameters, in lower case, and empty
  when the part declared none.
\<close>

record upload =
  filename :: string
  mimetype :: string
  file_data :: string

definition choose_mime :: "upload \<Rightarrow> string" where
  "choose_mime f =
     (let mime = (if mimetype f \<noteq> [] then mimetype f else ''application/octet-stream'');
          name = lower (filename f)
      in if mime = ''application/octet-stream''
         then (if endswith name ''.png'' then ''image/png''
               else if endswith name ''.jpg'' \<or> endswith name ''.jpeg'' then ''image/jpeg''
               else if endswith name ''.webp'' then ''image/webp''
               else ''image/*'')
         else mime)"

datatype chat_request = Multipart "string option" "upload list" | JsonBody "json option"

text \<open>
  What a chat request meets outside the registry: the clock (\<open>w_ts\<close> and \<open>w_iso\<close> for a
  session it creates, \<open>w_now\<close> for the time of its response), the library call
  \<^verbatim>\<open>types.Part.from_bytes\<close> (\<open>from_bytes_ok b m\<close> tells whether it accepts the bytes \<open>b\<close>
  with MIME type \<open>m\<close>; when it raises, the image is dropped) and the remote model, which
  for a model name and a history yields the texts of its chunks (\<open>None\<close> for a chunk
  without text) and, when the call raised, the text of the exception.
\<close>

record world =
  w_ts :: int
  w_iso :: string
  w_now :: datetime
  from_bytes_ok :: "string \<Rightarrow> string \<Rightarrow> bool"
  generate_content_stream :: "string \<Rightarrow> content list \<Rightarrow> string option list \<times> string option"

definition image_parts_of :: "(string \<Rightarrow> string \<Rightarrow> bool) \<Rightarrow> upload list \<Rightarrow> part list" where
  "image_parts_of ok files =
     List.map_filter
       (\<lambda>f. if filename f = [] then None
            else if ok (file_data f) (choose_mime f)
                 then Some (InlineData (file_data f) (choose_mime f))
                 else None)
       files"

text \<open>Lines 162-190: the trimmed text and the image parts of a request.\<close>

definition chat_input ::
  "(string \<Rightarrow> string \<Rightarrow> bool) \<Rightarrow> chat_request \<Rightarrow> py_error + (string \<times> part list)" where
  "chat_input ok req =
     (case req of
        Multipart msg files \<Rightarrow>
          Inr (strip (case msg of None \<Rightarrow> [] | Some m \<Rightarrow> m), image_parts_of ok files)
      | JsonBody body \<Rightarrow>
          (case py_dict_get (json_or_empty body) ''message'' of
             Inl e \<Rightarrow> Inl e
           | Inr v \<Rightarrow>
               (case or_empty_strip v of
                  Inl e \<Rightarrow> Inl e
                | Inr user_text \<Rightarrow> Inr (user_text, []))))"

definition TEXT_MODEL :: string where
  "TEXT_MODEL = ''gemini-2.5-flash''"

definition VISION_MODEL :: string where
  "VISION_MODEL = ''gemini-2.5-pro''"

definition reply_of :: "string option list \<times> string option \<Rightarrow> string" where
  "reply_of out =
     (case snd out of
        Some e \<Rightarrow> ''Model error: '' @ e
      | None \<Rightarrow> concat (map (\<lambda>c. case c of None \<Rightarrow> [] | Some t \<Rightarrow> t) (fst out)))"

definition chat :: "world \<Rightarrow> chat_request \<Rightarrow> state \<Rightarrow> state \<times> (http_error + (string \<times> string))" where
  "chat w req s =
     (case chat_input (from_bytes_ok w) req of
        Inl e \<Rightarrow> (s, Inl (Http500 e))
      | Inr (user_text, image_parts) \<Rightarrow>
          if user_text = [] \<and> image_parts = []
          then (s, Inr (''Please type or upload something.'', now_time (w_now w)))
          else
            (case get_or_create_default_session (w_ts w) (w_iso w) s of
               Inl e \<Rightarrow> (s, Inl (Http500 e))
             | Inr (s0, c, sess) \<Rightarrow>
                 (let user_parts = (if user_text \<noteq> [] then [TextPart user_text] else []) @ image_parts;
                      hist1 = history sess @ [\<lparr>role = ''user'', parts = user_parts\<rparr>];
                      s1 = with_session s0 c (\<lambda>d. d\<lparr>history := hist1\<rparr>);
                      s2 = (if startswith (title sess) ''New Chat'' \<and> user_text \<noteq> []
                            then (case slug_from_text user_text 40 of
                                    None \<Rightarrow> s1
                                  | Some maybe \<Rightarrow> with_session s1 c (\<lambda>d. d\<lparr>title := maybe\<rparr>))
                            else s1);
                      model_name = (if image_parts \<noteq> [] then VISION_MODEL else TEXT_MODEL);
                      reply_text = reply_of (generate_content_stream w model_name hist1);
                      hist2 = hist1 @ [\<lparr>role = ''model'', parts = [TextPart reply_text]\<rparr>];
                      s3 = with_session s2 c (\<lambda>d. d\<lparr>history := hist2\<rparr>)
                  in (s3, Inr (reply_text, now_time (w_now w))))))"

section \<open>Reachable states\<close>

text \<open>
  The handlers that write the registry, as events; a reachable state is what a sequence
  of them, with any inputs and any clock, makes of the empty registry of start-up.
\<close>

datatype event =
  EvIndex int string
| EvCreate int string
| EvUpdate string "json option"
| EvDelete int string string
| EvSwitch string
| EvReset int string
| EvChat world chat_request

fun step :: "event \<Rightarrow> state \<Rightarrow> state" where
  "step (EvIndex now_ts now_iso) s = fst (index now_ts now_iso s)"
| "step (EvCreate now_ts now_iso) s = fst (create_session now_ts now_iso s)"
| "step (EvUpdate sid body) s = fst (update_session sid body s)"
| "step (EvDelete now_ts now_iso sid) s = fst (delete_session now_ts now_iso sid s)"
| "step (EvSwitch sid) s = fst (switch_session sid s)"
| "step (EvReset now_ts now_iso) s = fst (reset now_ts now_iso s)"
| "step (EvChat w req) s = fst (chat w req s)"

inductive reachable :: "state \<Rightarrow> bool" where
  reachable_initial: "reachable initial"
| reachable_step: "reachable s \<Longrightarrow> reachable (step e s)"

text \<open>
  The invariant of the registry: its keys are distinct, as those of a \<^verbatim>\<open>dict\<close> are, and the
  current id is a key of it, or is \<^verbatim>\<open>None\<close> while the registry is still empty.
\<close>

definition registry_inv :: "state \<Rightarrow> bool" where
  "registry_inv s =
     (distinct (dict_keys (chat_sessions s)) \<and>
      (case current_session_id s of
         None \<Rightarrow> chat_sessions s = []
       | Some c \<Rightarrow> c \<in> set (dict_keys (chat_sessions s))))"

section \<open>The invariant holds in every reachable state\<close>

lemma set_keys_dict_set: "set (dict_keys (dict_set d k v)) = insert k (set (dict_keys d))"
  by (induction d k v rule: dict_set.induct) (auto simp: dict_keys_def)

lemma distinct_keys_dict_set:
  "distinct (dict_keys d) \<Longrightarrow> distinct (dict_keys (dict_set d k v))"
proof (induction d k v rule: dict_set.induct)
  case (1 k v)
  then show ?case by (simp add: dict_keys_def)
next
  case (2 k' v' d k v)
  have "set (map fst (dict_set d k v)) = insert k (set (map fst d))"
    using set_keys_dict_set [of d k v] by (simp add: dict_keys_def)
  with 2 show ?case by (auto simp: dict_keys_def)
qed

lemma keys_dict_del: "dict_keys (dict_del d k) = filter (\<lambda>k'. k' \<noteq> k) (dict_keys d)"
  by (induction d) (auto simp: dict_keys_def dict_del_def)

lemma keys_with_session [simp]:
  "dict_keys (chat_sessions (with_session s sid f)) = dict_keys (chat_sessions s)"
  by (simp add: with_session_def dict_keys_def comp_def)

lemma current_with_session [simp]:
  "current_session_id (with_session s sid f) = current_session_id s"
  by (simp add: with_session_def)

lemma sessions_with_session_Nil [simp]:
  "chat_sessions (with_session s sid f) = [] \<longleftrightarrow> chat_sessions s = []"
  by (simp add: with_session_def)

lemma registry_inv_with_session: "registry_inv s \<Longrightarrow> registry_inv (with_session s sid f)"
  by (simp add: registry_inv_def split: option.splits)

lemma registry_inv_create:
  assumes "distinct (dict_keys (chat_sessions s))"
    and "create_session_object now_ts now_iso s = (s1, sid)"
  shows "registry_inv (s1\<lparr>current_session_id := Some sid\<rparr>)"
  using assms
  by (auto simp: registry_inv_def create_session_object_def Let_def set_keys_dict_set distinct_keys_dict_set)

lemma get_or_create_inv:
  assumes "registry_inv s"
    and "get_or_create_default_session now_ts now_iso s = Inr (s', c, sess)"
  shows "registry_inv s'"
proof (cases "chat_sessions s = []")
  case True
  obtain s1 sid where c: "create_session_object now_ts now_iso s = (s1, sid)"
    by (cases "create_session_object now_ts now_iso s")
  have "registry_inv (s1\<lparr>current_session_id := Some sid\<rparr>)"
    using assms(1) c by (intro registry_inv_create [of s]) (simp_all add: registry_inv_def)
  moreover have "s' = s1\<lparr>current_session_id := Some sid\<rparr>"
    using assms(2) True c
    by (auto simp: get_or_create_default_session_def Let_def split: option.splits)
  ultimately show ?thesis by simp
next
  case False
  then have "s' = s"
    using assms(2) by (auto simp: get_or_create_default_session_def Let_def split: option.splits)
  then show ?thesis using assms(1) by simp
qed

lemma index_inv: "registry_inv s \<Longrightarrow> registry_inv (fst (index now_ts now_iso s))"
  by (auto simp: index_def split: sum.splits dest: get_or_create_inv)

lemma reset_inv: "registry_inv s \<Longrightarrow> registry_inv (fst (reset now_ts now_iso s))"
  by (auto simp: reset_def split: sum.splits dest: get_or_create_inv intro: registry_inv_with_session)

lemma create_session_inv: "registry_inv s \<Longrightarrow> registry_inv (fst (create_session now_ts now_iso s))"
proof -
  assume a: "registry_inv s"
  obtain s1 sid where c: "create_session_object now_ts now_iso s = (s1, sid)"
    by (cases "create_session_object now_ts now_iso s")
  have "registry_inv (s1\<lparr>current_session_id := Some sid\<rparr>)"
    using a c by (intro registry_inv_create [of s]) (simp_all add: registry_inv_def)
  then show ?thesis using c by (simp add: create_session_def Let_def)
qed

lemma switch_session_inv: "registry_inv s \<Longrightarrow> registry_inv (fst (switch_session sid s))"
  by (auto simp: switch_session_def registry_inv_def split: option.splits)

lemma update_title_inv:
  "registry_inv s \<Longrightarrow> update_title sid data s = Inr s1 \<Longrightarrow> registry_inv s1"
  by (auto simp: update_title_def split: sum.splits if_splits intro: registry_inv_with_session)

lemma update_pinned_inv:
  "registry_inv s \<Longrightarrow> update_pinned sid data s = Inr s1 \<Longrightarrow> registry_inv s1"
  by (auto simp: update_pinned_def split: sum.splits if_splits intro: registry_inv_with_session)

lemma update_session_inv: "registry_inv s \<Longrightarrow> registry_inv (fst (update_session sid body s))"
  by (auto simp: update_session_def Let_def split: sum.splits
           dest: update_title_inv update_pinned_inv)

lemma delete_session_inv:
  assumes "registry_inv s"
  shows "registry_inv (fst (delete_session now_ts now_iso sid s))"
proof (cases "sid \<in> set (dict_keys (chat_sessions s))")
  case False
  then show ?thesis using assms by (simp add: delete_session_def)
next
  case True
  define s1 where "s1 = s\<lparr>chat_sessions := dict_del (chat_sessions s) sid\<rparr>"
  have d1: "distinct (dict_keys (chat_sessions s1))"
    using assms by (simp add: s1_def registry_inv_def keys_dict_del)
  show ?thesis
  proof (cases "current_session_id s = Some sid")
    case cur: True
    show ?thesis
    proof (cases "dict_keys (chat_sessions s1)")
      case Nil
      obtain s2 new where c: "create_session_object now_ts now_iso s1 = (s2, new)"
        by (cases "create_session_object now_ts now_iso s1")
      have "registry_inv (s2\<lparr>current_session_id := Some new\<rparr>)"
        using d1 c by (rule registry_inv_create)
      then show ?thesis
        using True cur Nil c by (simp add: delete_session_def Let_def s1_def)
    next
      case (Cons k ks)
      then have "registry_inv (s1\<lparr>current_session_id := Some k\<rparr>)"
        using d1 by (simp add: registry_inv_def)
      then show ?thesis
        using True cur Cons by (simp add: delete_session_def Let_def s1_def)
    qed
  next
    case other: False
    have keys1: "set (dict_keys (chat_sessions s1)) = set (dict_keys (chat_sessions s)) - {sid}"
      by (auto simp: s1_def keys_dict_del)
    have "chat_sessions s \<noteq> []"
      using True by (auto simp: dict_keys_def)
    then obtain c where c: "current_session_id s = Some c" "c \<in> set (dict_keys (chat_sessions s))"
      using assms by (auto simp: registry_inv_def split: option.splits)
    then have "c \<in> set (dict_keys (chat_sessions s1))"
      using other keys1 by simp
    then have "registry_inv s1"
      using d1 c by (simp add: registry_inv_def s1_def)
    then show ?thesis
      using True other by (simp add: delete_session_def Let_def s1_def)
  qed
qed

lemma chat_inv:
  assumes "registry_inv s"
  shows "registry_inv (fst (chat w req s))"
proof (cases "chat_input (from_bytes_ok w) req")
  case (Inl e)
  then show ?thesis using assms by (simp add: chat_def)
next
  case (Inr p)
  obtain user_text image_parts where p: "p = (user_text, image_parts)" by (cases p)
  show ?thesis
  proof (cases "user_text = [] \<and> image_parts = []")
    case True
    then show ?thesis using assms Inr p by (simp add: chat_def)
  next
    case False
    show ?thesis
    proof (cases "get_or_create_default_session (w_ts w) (w_iso w) s")
      case (Inl e)
      then show ?thesis using assms Inr p False by (simp add: chat_def)
    next
      case got: (Inr q)
      obtain s0 c sess where q: "q = (s0, c, sess)" by (cases q)
      have "registry_inv s0" using assms got q by (auto dest: get_or_create_inv)
      then show ?thesis
        using Inr p False got q
        by (auto simp: chat_def Let_def registry_inv_with_session split: option.splits)
    qed
  qed
qed

lemma step_inv: "registry_inv s \<Longrightarrow> registry_inv (step e s)"
  by (cases e)
     (simp_all add: index_inv create_session_inv update_session_inv delete_session_inv
        switch_session_inv reset_inv chat_inv)

lemma initial_inv: "registry_inv initial"
  by (simp add: registry_inv_def initial_def dict_keys_def)

lemma reachable_inv: "reachable s \<Longrightarrow> registry_inv s"
  by (induction rule: reachable.induct) (simp_all add: initial_inv step_inv)

lemma str_of_nat_1: "str_of_nat (Suc 0) = ''1''"
  by code_simp

lemma new_session_title_empty: "chat_sessions s = [] \<Longrightarrow> new_session_title s = ''New Chat 1''"
  by (simp add: new_session_title_def str_of_nat_1)

lemma dict_get_key: "k \<in> set (dict_keys d) \<Longrightarrow> \<exists>v. dict_get d k = Some v"
  by (cases "map_of d k") (auto simp: dict_keys_def map_of_eq_None_iff)

lemma get_or_create_empty:
  assumes "chat_sessions s = []"
  shows "get_or_create_default_session now_ts now_iso s =
           Inr (s\<lparr>chat_sessions :=
                     [(snd (create_session_object now_ts now_iso s),
                       \<lparr>history = [], created_at = now_iso, title = ''New Chat 1'', pinned = False\<rparr>)],
                   current_session_id := Some (snd (create_session_object now_ts now_iso s))\<rparr>,
                snd (create_session_object now_ts now_iso s),
                \<lparr>history = [], created_at = now_iso, title = ''New Chat 1'', pinned = False\<rparr>)"
  using assms
  by (simp add: get_or_create_default_session_def create_session_object_def Let_def new_session_title_empty)

lemma get_or_create_nonempty:
  assumes "chat_sessions s \<noteq> []"
  shows "get_or_create_default_session now_ts now_iso s =
           (case current_session_id s of
              None \<Rightarrow> Inl KeyError
            | Some c \<Rightarrow>
                (case dict_get (chat_sessions s) c of
                   None \<Rightarrow> Inl KeyError
                 | Some sess \<Rightarrow> Inr (s, c, sess)))"
  using assms by (simp add: get_or_create_default_session_def)


lemma get_or_create_twice:
  assumes e: "chat_sessions s = []"
  shows "\<exists>s' sid sess.
          get_or_create_default_session now_ts now_iso s = Inr (s', sid, sess)
          \<and> chat_sessions s' = [(sid, sess)]
          \<and> current_session_id s' = Some sid
          \<and> get_or_create_default_session now_ts' now_iso' s' = Inr (s', sid, sess)"
proof -
  define sid where "sid = snd (create_session_object now_ts now_iso s)"
  define sess where "sess = \<lparr>history = [], created_at = now_iso, title = ''New Chat 1'', pinned = False\<rparr>"
  define s' where "s' = s\<lparr>chat_sessions := [(sid, sess)], current_session_id := Some sid\<rparr>"
  have 1: "get_or_create_default_session now_ts now_iso s = Inr (s', sid, sess)"
    unfolding s'_def sid_def sess_def using e by (rule get_or_create_empty)
  have 2: "chat_sessions s' = [(sid, sess)]" by (simp add: s'_def)
  have 3: "current_session_id s' = Some sid" by (simp add: s'_def)
  have ne: "chat_sessions s' \<noteq> []" using 2 by simp
  have 4: "get_or_create_default_session now_ts' now_iso' s' = Inr (s', sid, sess)"
    unfolding get_or_create_nonempty [OF ne] 3 using 2 by simp
  show ?thesis
    by (intro exI conjI) (rule 1, rule 2, rule 3, rule 4)
qed

lemma get_or_create_nonempty_state:
  assumes ne: "chat_sessions s \<noteq> []"
    and r: "get_or_create_default_session now_ts now_iso s = Inr (s', c, sess)"
  shows "s' = s"
proof (cases "current_session_id s")
  case None
  then show ?thesis using r unfolding get_or_create_nonempty [OF ne] by simp
next
  case (Some c0)
  show ?thesis
  proof (cases "dict_get (chat_sessions s) c0")
    case None
    then show ?thesis using r Some unfolding get_or_create_nonempty [OF ne] by simp
  next
    case (Some sess0)
    then show ?thesis
      using r \<open>current_session_id s = Some c0\<close> unfolding get_or_create_nonempty [OF ne] by simp
  qed
qed

lemma get_or_create_reachable:
  assumes ne: "chat_sessions s \<noteq> []" and re: "reachable s"
  shows "\<exists>c sess. current_session_id s = Some c
                  \<and> dict_get (chat_sessions s) c = Some sess
                  \<and> get_or_create_default_session now_ts now_iso s = Inr (s, c, sess)"
proof -
  have "registry_inv s" using re by (rule reachable_inv)
  then obtain c where c: "current_session_id s = Some c" "c \<in> set (dict_keys (chat_sessions s))"
    using ne by (cases "current_session_id s") (simp_all add: registry_inv_def)
  obtain sess where g: "dict_get (chat_sessions s) c = Some sess"
    using dict_get_key [OF c(2)] by (elim exE)
  have "get_or_create_default_session now_ts now_iso s = Inr (s, c, sess)"
    unfolding get_or_create_nonempty [OF ne] c(1) using g by simp
  with c(1) g show ?thesis by (intro exI conjI)
qed

lemma set_insort_desc: "set (insort_desc key x xs) = insert x (set xs)"
  by (induction xs) auto

lemma length_insort_desc: "length (insort_desc key x xs) = Suc (length xs)"
  by (induction xs) auto

lemma set_sort_reverse: "set (sort_reverse key xs) = set xs"
  by (induction xs) (simp_all add: sort_reverse_def set_insort_desc)

lemma length_sort_reverse: "length (sort_reverse key xs) = length xs"
  by (induction xs) (simp_all add: sort_reverse_def length_insort_desc)

lemma with_session_same:
  assumes "\<And>d. f d = d"
  shows "with_session s sid f = s"
proof -
  have "(\<lambda>kv. if fst kv = sid then (fst kv, f (snd kv)) else kv) = (\<lambda>kv. kv)"
    by (rule ext) (auto simp: assms)
  then show ?thesis by (simp add: with_session_def)
qed

lemma with_session_twice:
  "with_session (with_session s sid f) sid g = with_session s sid (\<lambda>d. g (f d))"
  by (simp add: with_session_def comp_def)

lemma dict_get_with_session:
  "dict_get (chat_sessions (with_session s sid f)) k =
     (if k = sid then map_option f (dict_get (chat_sessions s) k) else dict_get (chat_sessions s) k)"
proof -
  have "map_of (map (\<lambda>kv. if fst kv = sid then (fst kv, f (snd kv)) else kv) d) k =
          (if k = sid then map_option f (map_of d k) else map_of d k)" for d
    by (induction d) auto
  then show ?thesis by (simp add: with_session_def)
qed

lemma strip_Nil: "strip [] = []"
  by (simp add: strip_def)

lemma or_empty_strip_JStr: "or_empty_strip (JStr t) = Inr (strip t)"
  by (simp add: or_empty_strip_def strip_Nil)

lemma key_in_obj: "k \<in> fst ` set kvs \<longleftrightarrow> map_of kvs k \<noteq> None"
  by (simp add: map_of_eq_None_iff)

lemma update_title_obj:
  assumes "map_of kvs ''title'' = map_option JStr new_title"
  shows "update_title sid (JObj kvs) s = Inr (with_session s sid (update_spec new_title None))"
proof (cases new_title)
  case None
  then have "''title'' \<notin> fst ` set kvs" using assms by (simp add: key_in_obj)
  moreover have "with_session s sid (update_spec None None) = s"
    by (rule with_session_same) (simp add: update_spec_def)
  ultimately show ?thesis using None by (simp add: update_title_def)
next
  case (Some t)
  then have g: "map_of kvs ''title'' = Some (JStr t)" using assms by simp
  then have "''title'' \<in> fst ` set kvs" by (simp add: key_in_obj)
  moreover have "(\<lambda>d. d\<lparr>title := if strip t \<noteq> [] then strip t else title d\<rparr>) = update_spec (Some t) None"
    by (rule ext) (simp add: update_spec_def)
  ultimately show ?thesis
    using Some g by (simp add: update_title_def or_empty_strip_JStr)
qed

lemma update_pinned_obj:
  assumes "map_of kvs ''pinned'' = new_pinned"
  shows "update_pinned sid (JObj kvs) s = Inr (with_session s sid (update_spec None new_pinned))"
proof (cases new_pinned)
  case None
  then have "''pinned'' \<notin> fst ` set kvs" using assms by (simp add: key_in_obj)
  moreover have "with_session s sid (update_spec None None) = s"
    by (rule with_session_same) (simp add: update_spec_def)
  ultimately show ?thesis using None by (simp add: update_pinned_def)
next
  case (Some v)
  then have g: "map_of kvs ''pinned'' = Some v" using assms by simp
  then have "''pinned'' \<in> fst ` set kvs" by (simp add: key_in_obj)
  moreover have "(\<lambda>d. d\<lparr>pinned := truthy v\<rparr>) = update_spec None (Some v)"
    by (rule ext) (simp add: update_spec_def)
  ultimately show ?thesis
    using Some g by (simp add: update_pinned_def)
qed

lemma update_spec_split:
  "update_spec None new_pinned (update_spec new_title None d) = update_spec new_title new_pinned d"
  by (simp add: update_spec_def split: option.splits)

lemma update_session_obj:
  assumes "session_id \<in> set (dict_keys (chat_sessions s))"
    and "json_or_empty body = JObj kvs"
    and "map_of kvs ''title'' = map_option JStr new_title"
    and "map_of kvs ''pinned'' = new_pinned"
  shows "update_session session_id body s =
           (with_session s session_id (update_spec new_title new_pinned), Inr ())"
  using assms(1,2)
  by (simp add: update_session_def update_title_obj [OF assms(3)] update_pinned_obj [OF assms(4)]
        with_session_twice update_spec_split)

lemma update_session_404:
  "snd (update_session session_id body s) = Inl Http404
     \<longleftrightarrow> session_id \<notin> set (dict_keys (chat_sessions s))"
  by (simp add: update_session_def Let_def split: sum.splits)

lemma update_session_absent:
  "session_id \<notin> set (dict_keys (chat_sessions s)) \<Longrightarrow> fst (update_session session_id body s) = s"
  by (simp add: update_session_def)

lemma image_parts_of_no_files:
  "\<forall>f \<in> set files. filename f = [] \<Longrightarrow> image_parts_of ok files = []"
  by (induction files) (simp_all add: image_parts_of_def List.map_filter_simps)

lemma chat_input_multipart_empty:
  assumes "strip (case msg of None \<Rightarrow> [] | Some m \<Rightarrow> m) = []"
    and "\<forall>f \<in> set files. filename f = []"
  shows "chat_input ok (Multipart msg files) = Inr ([], [])"
  using assms by (simp add: chat_input_def image_parts_of_no_files)

lemma chat_input_json_empty:
  assumes "json_or_empty body = JObj kvs"
    and "map_of kvs ''message'' = None \<or> (\<exists>m. map_of kvs ''message'' = Some (JStr m) \<and> strip m = [])"
  shows "chat_input ok (JsonBody body) = Inr ([], [])"
proof -
  from assms(2) show ?thesis
  proof
    assume "map_of kvs ''message'' = None"
    then show ?thesis using assms(1) by (simp add: chat_input_def or_empty_strip_def)
  next
    assume "\<exists>m. map_of kvs ''message'' = Some (JStr m) \<and> strip m = []"
    then obtain m where "map_of kvs ''message'' = Some (JStr m)" "strip m = []" by (elim exE conjE)
    then show ?thesis using assms(1) by (simp add: chat_input_def or_empty_strip_JStr)
  qed
qed

lemma chat_no_input:
  assumes "chat_input (from_bytes_ok w) req = Inr ([], [])"
  shows "chat w req s = (s, Inr (''Please type or upload something.'', now_time (w_now w)))"
  using assms by (simp add: chat_def)

lemma image_parts_of_eq:
  "image_parts_of ok files =
     map (\<lambda>f. InlineData (file_data f) (choose_mime f))
       (filter (\<lambda>f. filename f \<noteq> [] \<and> ok (file_data f) (choose_mime f)) files)"
  by (induction files) (simp_all add: image_parts_of_def List.map_filter_simps)

lemma messages_nth:
  assumes "i < length hist"
  shows "map (\<lambda>(i, c). \<lparr>msg_role = role c, timestamp = now_time (clock i),
                         msg_parts = map part_view (parts c)\<rparr>) (enumerate 0 hist) ! i
         = \<lparr>msg_role = role (hist ! i), timestamp = now_time (clock i),
            msg_parts = map part_view (parts (hist ! i))\<rparr>"
  using assms by (simp add: nth_enumerate_eq)

lemma get_session_present:
  assumes "dict_get (chat_sessions s) sid = Some sess"
  shows "get_session clock sid s =
           Inr \<lparr>view_id = sid, view_title = title sess, view_created_at = created_at sess,
                messages = map (\<lambda>(i, c). \<lparr>msg_role = role c, timestamp = now_time (clock i),
                                 msg_parts = map part_view (parts c)\<rparr>) (enumerate 0 (history sess))\<rparr>"
  using assms by (simp add: get_session_def)

lemma messages_eq_iff:
  "map (\<lambda>(i, c). \<lparr>msg_role = role c, timestamp = now_time (clock i),
                   msg_parts = map part_view (parts c)\<rparr>) (enumerate 0 hist)
   = map (\<lambda>(i, c). \<lparr>msg_role = role c, timestamp = now_time (clock' i),
                   msg_parts = map part_view (parts c)\<rparr>) (enumerate 0 hist)
   \<longleftrightarrow> (\<forall>i < length hist. now_time (clock i) = now_time (clock' i))"
  by (simp add: list_eq_iff_nth_eq nth_enumerate_eq)

lemma dict_get_dict_del:
  "dict_get (dict_del d k) k' = (if k' = k then None else dict_get d k')"
  by (induction d) (auto simp: dict_del_def)

lemma delete_session_other:
  assumes "session_id \<in> set (dict_keys (chat_sessions s))"
    and "current_session_id s = Some c0" and "c0 \<noteq> session_id"
  shows "delete_session now_ts now_iso session_id s
           = (s\<lparr>chat_sessions := dict_del (chat_sessions s) session_id\<rparr>, Inr (Some c0))"
  using assms by (simp add: delete_session_def Let_def)

lemma delete_session_current_rest:
  assumes "session_id \<in> set (dict_keys (chat_sessions s))"
    and "current_session_id s = Some session_id"
    and "dict_keys (dict_del (chat_sessions s) session_id) = k # ks"
  shows "delete_session now_ts now_iso session_id s
           = (s\<lparr>chat_sessions := dict_del (chat_sessions s) session_id,
                 current_session_id := Some k\<rparr>, Inr (Some k))"
  using assms by (simp add: delete_session_def Let_def)

lemma delete_session_current_last:
  assumes "session_id \<in> set (dict_keys (chat_sessions s))"
    and "current_session_id s = Some session_id"
    and "dict_keys (dict_del (chat_sessions s) session_id) = []"
  shows "delete_session now_ts now_iso session_id s
           = (s\<lparr>chat_sessions :=
                   [(''session_1_'' @ str_of_int now_ts,
                     \<lparr>history = [], created_at = now_iso, title = ''New Chat 1'',
                      pinned = False\<rparr>)],
                 current_session_id := Some (''session_1_'' @ str_of_int now_ts)\<rparr>,
              Inr (Some (''session_1_'' @ str_of_int now_ts)))"
  using assms
  by (simp add: delete_session_def Let_def dict_keys_def create_session_object_def
        new_session_title_empty str_of_nat_1)

section \<open>The order of the listing\<close>

text \<open>
  In every state the listing is in descending order of the key \<^verbatim>\<open>(not pinned, created_at)\<close>:
  an item that follows a pinned item is pinned, so every unpinned session is listed
  before every pinned one, and of two items with the same pin flag the later one is not
  newer.
\<close>

lemma sorted_insort_desc:
  "sorted_wrt (\<lambda>a b. key b \<le> key a) xs \<Longrightarrow>
   sorted_wrt (\<lambda>a b. key b \<le> key a) (insort_desc key x xs)"
proof (induction xs)
  case Nil
  then show ?case by simp
next
  case (Cons y ys)
  show ?case
  proof (cases "key y \<le> key x")
    case True
    then have "\<forall>z \<in> set ys. key z \<le> key x" using Cons.prems by auto
    then show ?thesis using True Cons.prems by simp
  next
    case False
    then have "key x \<le> key y" by simp
    then show ?thesis using False Cons by (auto simp: set_insort_desc)
  qed
qed

lemma sorted_sort_reverse: "sorted_wrt (\<lambda>a b. key b \<le> key a) (sort_reverse key xs)"
  by (induction xs) (simp_all add: sort_reverse_def sorted_insort_desc)

lemma get_sessions_descending:
  "sorted_wrt (\<lambda>x y. sort_key_of y \<le> sort_key_of x) (fst (get_sessions s))"
  by (simp add: get_sessions_def sorted_sort_reverse)

lemma get_sessions_unpinned_before_pinned:
  assumes "fst (get_sessions s) = us @ x # vs" and "y \<in> set vs"
  shows "(item_pinned x \<longrightarrow> item_pinned y)
         \<and> (item_pinned x = item_pinned y \<longrightarrow> item_created_at y \<le> item_created_at x)"
proof -
  have "sorted_wrt (\<lambda>x y. sort_key_of y \<le> sort_key_of x) (us @ x # vs)"
    using get_sessions_descending [of s] assms(1) by simp
  then have "sort_key_of y \<le> sort_key_of x"
    using assms(2) by (simp add: sorted_wrt_append)
  then show ?thesis
    by (auto simp: sort_key_of_def less_eq_prod_def)
qed

section \<open>The listing\<close>

text \<open>
  Claim C1 (every pinned session precedes every unpinned one in the listing). The source
  sorts by the key \<^verbatim>\<open>(not pinned, created_at)\<close> in descending order, under the comment
  "pinned first, then newest created"; \<^verbatim>\<open>not pinned\<close> is \<^verbatim>\<open>True\<close> for an unpinned session,
  so the descending order lists the unpinned sessions first, in every state
  (\<open>get_sessions_unpinned_before_pinned\<close>). Here two sessions are
  created and the newer one is pinned: the listing shows the unpinned, older session
  first and the pinned one last.
\<close>

theorem get_sessions_lists_unpinned_first:
  "map (\<lambda>x. (item_id x, item_created_at x, item_pinned x))
     (fst (get_sessions
        (step (EvUpdate ''session_2_105'' (Some (JObj [(''pinned'', JBool True)])))
        (step (EvCreate 105 ''2024-01-01T10:00:05'')
        (step (EvCreate 100 ''2024-01-01T10:00:00'') initial)))))
   = [(''session_1_100'', ''2024-01-01T10:00:00'', False),
      (''session_2_105'', ''2024-01-01T10:00:05'', True)]"
  by code_simp

section \<open>Session ids\<close>

text \<open>
  Claim C2 (the id of a created session differs from every id in the registry). The id
  is built from the number of sessions in the registry plus one and the clock's second.
  Two sessions are created within one second, a conversation is held in the second one,
  and the first one is deleted; the registry then holds one session, so a third create
  within the same second builds the id \<^verbatim>\<open>session_2_7\<close> again and stores a fresh record under
  it: the conversation and the title of the existing session are gone.
\<close>

theorem create_session_replaces_present_session:
  "chat_sessions
     (step (EvDelete 7 ''2024-01-01T10:00:07.300000'' ''session_1_7'')
     (step (EvChat \<lparr>w_ts = 7, w_iso = ''2024-01-01T10:00:07.200000'',
                    w_now = \<lparr>dt_hour = 10, dt_minute = 0, dt_second = 7\<rparr>,
                    from_bytes_ok = (\<lambda>b m. True),
                    generate_content_stream = (\<lambda>m h. ([Some ''hello''], None))\<rparr>
                  (JsonBody (Some (JObj [(''message'', JStr ''hi'')]))))
     (step (EvCreate 7 ''2024-01-01T10:00:07.100000'')
     (step (EvCreate 7 ''2024-01-01T10:00:07.000000'') initial))))
   = [(''session_2_7'',
       \<lparr>history = [\<lparr>role = ''user'', parts = [TextPart ''hi'']\<rparr>,
                   \<lparr>role = ''model'', parts = [TextPart ''hello'']\<rparr>],
        created_at = ''2024-01-01T10:00:07.100000'', title = ''hi'', pinned = False\<rparr>)]
   \<and>
   create_session 7 ''2024-01-01T10:00:07.400000''
     (step (EvDelete 7 ''2024-01-01T10:00:07.300000'' ''session_1_7'')
     (step (EvChat \<lparr>w_ts = 7, w_iso = ''2024-01-01T10:00:07.200000'',
                    w_now = \<lparr>dt_hour = 10, dt_minute = 0, dt_second = 7\<rparr>,
                    from_bytes_ok = (\<lambda>b m. True),
                    generate_content_stream = (\<lambda>m h. ([Some ''hello''], None))\<rparr>
                  (JsonBody (Some (JObj [(''message'', JStr ''hi'')]))))
     (step (EvCreate 7 ''2024-01-01T10:00:07.100000'')
     (step (EvCreate 7 ''2024-01-01T10:00:07.000000'') initial))))
   = (\<lparr>chat_sessions =
         [(''session_2_7'',
           \<lparr>history = [], created_at = ''2024-01-01T10:00:07.400000'',
            title = ''New Chat 2'', pinned = False\<rparr>)],
       current_session_id = Some ''session_2_7''\<rparr>,
      (''session_2_7'', ''New Chat 2''))"
  by code_simp

section \<open>The automatic title\<close>

text \<open>
  Claim C3 (a title derived from the first user turn is not changed by a later turn). The
  source derives a title whenever the current title starts with \<^verbatim>\<open>New Chat\<close>, under the
  comment "Auto-title the session from first user text (once)". A first message that
  itself starts with \<^verbatim>\<open>New Chat\<close> becomes a title that passes the same test, and the second
  message replaces it.
\<close>

theorem chat_retitles_after_first_turn:
  "map (\<lambda>kv. title (snd kv))
     (chat_sessions
        (step (EvChat \<lparr>w_ts = 7, w_iso = ''2024-01-01T10:00:07'',
                       w_now = \<lparr>dt_hour = 10, dt_minute = 0, dt_second = 7\<rparr>,
                       from_bytes_ok = (\<lambda>b m. True),
                       generate_content_stream = (\<lambda>m h. ([Some ''hello''], None))\<rparr>
                     (JsonBody (Some (JObj [(''message'', JStr ''New Chat ideas'')])))) initial))
   = [''New Chat ideas'']
   \<and>
   map (\<lambda>kv. title (snd kv))
     (chat_sessions
        (step (EvChat \<lparr>w_ts = 9, w_iso = ''2024-01-01T10:00:09'',
                       w_now = \<lparr>dt_hour = 10, dt_minute = 0, dt_second = 9\<rparr>,
                       from_bytes_ok = (\<lambda>b m. True),
                       generate_content_stream = (\<lambda>m h. ([Some ''hello''], None))\<rparr>
                     (JsonBody (Some (JObj [(''message'', JStr ''second'')]))))
        (step (EvChat \<lparr>w_ts = 7, w_iso = ''2024-01-01T10:00:07'',
                       w_now = \<lparr>dt_hour = 10, dt_minute = 0, dt_second = 7\<rparr>,
                       from_bytes_ok = (\<lambda>b m. True),
                       generate_content_stream = (\<lambda>m h. ([Some ''hello''], None))\<rparr>
                     (JsonBody (Some (JObj [(''message'', JStr ''New Chat ideas'')])))) initial)))
   = [''second'']"
  by code_simp

section \<open>Deleting a session\<close>

text \<open>
  Claim C4: in every reachable state, after the deletion of a session that is present
  the current id is the id of a session of the registry, and the response reports it.
  When other sessions remain, the deleted id is gone: the keys of the registry are the
  keys it had before without the deleted one, in the same order, the deleted id is no
  longer found, every other session is found as before, and the current id is one of
  the keys that were there before and differs from the deleted id; it is the current id
  of before when another session was deleted, and the first remaining key in insertion
  order when the current session was deleted. When no other session remains (the deleted
  session was then the current one), the registry holds exactly one fresh session, with
  the default title, no history and no pin, under the id built for a first session at
  the clock's second, and that session is current.
\<close>

theorem delete_session_current_exists:
  assumes "reachable s" and "session_id \<in> set (dict_keys (chat_sessions s))"
  shows "\<exists>c. current_session_id (fst (delete_session now_ts now_iso session_id s)) = Some c
           \<and> c \<in> set (dict_keys (chat_sessions (fst (delete_session now_ts now_iso session_id s))))
           \<and> snd (delete_session now_ts now_iso session_id s) = Inr (Some c)
           \<and> ((\<exists>k. k \<in> set (dict_keys (chat_sessions s)) \<and> k \<noteq> session_id) \<longrightarrow>
                 dict_keys (chat_sessions (fst (delete_session now_ts now_iso session_id s)))
                   = filter (\<lambda>k. k \<noteq> session_id) (dict_keys (chat_sessions s))
                 \<and> session_id
                     \<notin> set (dict_keys (chat_sessions (fst (delete_session now_ts now_iso session_id s))))
                 \<and> dict_get (chat_sessions (fst (delete_session now_ts now_iso session_id s))) session_id
                     = None
                 \<and> (\<forall>k. k \<noteq> session_id \<longrightarrow>
                        dict_get (chat_sessions (fst (delete_session now_ts now_iso session_id s))) k
                          = dict_get (chat_sessions s) k)
                 \<and> c \<noteq> session_id
                 \<and> c \<in> set (dict_keys (chat_sessions s))
                 \<and> (current_session_id s \<noteq> Some session_id \<longrightarrow> current_session_id s = Some c)
                 \<and> (current_session_id s = Some session_id \<longrightarrow>
                        c = hd (filter (\<lambda>k. k \<noteq> session_id) (dict_keys (chat_sessions s)))))
           \<and> ((\<forall>k. k \<in> set (dict_keys (chat_sessions s)) \<longrightarrow> k = session_id) \<longrightarrow>
                 current_session_id s = Some session_id
                 \<and> c = ''session_1_'' @ str_of_int now_ts
                 \<and> chat_sessions (fst (delete_session now_ts now_iso session_id s))
                     = [(c, \<lparr>history = [], created_at = now_iso, title = ''New Chat 1'',
                             pinned = False\<rparr>)])"
proof -
  let ?K = "dict_keys (chat_sessions s)"
  let ?F = "filter (\<lambda>k. k \<noteq> session_id) ?K"
  let ?d = "dict_del (chat_sessions s) session_id"
  have inv: "registry_inv s" using assms(1) by (rule reachable_inv)
  have ne: "chat_sessions s \<noteq> []" using assms(2) by (auto simp: dict_keys_def)
  then obtain c0 where c0: "current_session_id s = Some c0" "c0 \<in> set ?K"
    using inv by (auto simp: registry_inv_def split: option.splits)
  have kd: "dict_keys ?d = ?F" by (rule keys_dict_del)
  have gone: "dict_get ?d session_id = None" by (simp add: dict_get_dict_del)
  have kept: "\<forall>k. k \<noteq> session_id \<longrightarrow> dict_get ?d k = dict_get (chat_sessions s) k"
    by (simp add: dict_get_dict_del)
  have notin: "session_id \<notin> set ?F" by simp
  show ?thesis
  proof (cases "c0 = session_id")
    case False
    have eq: "delete_session now_ts now_iso session_id s
                = (s\<lparr>chat_sessions := ?d\<rparr>, Inr (Some c0))"
      using assms(2) c0(1) False by (rule delete_session_other)
    have inF: "c0 \<in> set ?F" using c0(2) False by simp
    have other: "\<not> (\<forall>k. k \<in> set ?K \<longrightarrow> k = session_id)" using c0(2) False by blast
    show ?thesis
    proof (rule exI [of _ c0], intro conjI impI)
      show "current_session_id (fst (delete_session now_ts now_iso session_id s)) = Some c0"
        by (simp add: eq c0(1))
      show "c0 \<in> set (dict_keys (chat_sessions (fst (delete_session now_ts now_iso session_id s))))"
        using inF by (simp add: eq kd)
      show "snd (delete_session now_ts now_iso session_id s) = Inr (Some c0)"
        by (simp add: eq)
      show "dict_keys (chat_sessions (fst (delete_session now_ts now_iso session_id s))) = ?F"
        by (simp add: eq kd)
      show "session_id \<notin> set (dict_keys (chat_sessions (fst (delete_session now_ts now_iso session_id s))))"
        by (simp add: eq kd)
      show "dict_get (chat_sessions (fst (delete_session now_ts now_iso session_id s))) session_id = None"
        by (simp add: eq gone)
      show "\<forall>k. k \<noteq> session_id \<longrightarrow>
              dict_get (chat_sessions (fst (delete_session now_ts now_iso session_id s))) k
                = dict_get (chat_sessions s) k"
        using kept by (simp add: eq)
      show "c0 \<noteq> session_id" by (rule False)
      show "c0 \<in> set ?K" by (rule c0(2))
      show "current_session_id s = Some c0" by (rule c0(1))
      show "c0 = hd ?F" if "current_session_id s = Some session_id"
        using that c0(1) False by simp
      show "current_session_id s = Some session_id"
        if "\<forall>k. k \<in> set ?K \<longrightarrow> k = session_id"
        using that other by simp
      show "c0 = ''session_1_'' @ str_of_int now_ts"
        if "\<forall>k. k \<in> set ?K \<longrightarrow> k = session_id"
        using that other by simp
      show "chat_sessions (fst (delete_session now_ts now_iso session_id s))
              = [(c0, \<lparr>history = [], created_at = now_iso, title = ''New Chat 1'',
                      pinned = False\<rparr>)]"
        if "\<forall>k. k \<in> set ?K \<longrightarrow> k = session_id"
        using that other by simp
    qed
  next
    case True
    then have cur: "current_session_id s = Some session_id" using c0(1) by simp
    show ?thesis
    proof (cases ?F)
      case Nil
      then have kn: "dict_keys ?d = []" using kd by simp
      have eq: "delete_session now_ts now_iso session_id s
           = (s\<lparr>chat_sessions :=
                   [(''session_1_'' @ str_of_int now_ts,
                     \<lparr>history = [], created_at = now_iso, title = ''New Chat 1'',
                      pinned = False\<rparr>)],
                 current_session_id := Some (''session_1_'' @ str_of_int now_ts)\<rparr>,
              Inr (Some (''session_1_'' @ str_of_int now_ts)))"
        using assms(2) cur kn by (rule delete_session_current_last)
      have all: "\<not> (\<exists>k. k \<in> set ?K \<and> k \<noteq> session_id)"
      proof
        assume "\<exists>k. k \<in> set ?K \<and> k \<noteq> session_id"
        then obtain k where "k \<in> set ?K" "k \<noteq> session_id" by (elim exE conjE)
        then have "k \<in> set ?F" by simp
        then show False using Nil by simp
      qed
      show ?thesis
      proof (rule exI [of _ "''session_1_'' @ str_of_int now_ts"], intro conjI impI)
        show "current_session_id (fst (delete_session now_ts now_iso session_id s))
                = Some (''session_1_'' @ str_of_int now_ts)"
          by (simp add: eq)
        show "''session_1_'' @ str_of_int now_ts
                \<in> set (dict_keys (chat_sessions (fst (delete_session now_ts now_iso session_id s))))"
          by (simp add: eq dict_keys_def)
        show "snd (delete_session now_ts now_iso session_id s)
                = Inr (Some (''session_1_'' @ str_of_int now_ts))"
          by (simp add: eq)
        show "current_session_id s = Some session_id" by (rule cur)
        show "''session_1_'' @ str_of_int now_ts = ''session_1_'' @ str_of_int now_ts" by (rule refl)
        show "chat_sessions (fst (delete_session now_ts now_iso session_id s))
              = [(''session_1_'' @ str_of_int now_ts,
                  \<lparr>history = [], created_at = now_iso, title = ''New Chat 1'', pinned = False\<rparr>)]"
          by (simp add: eq)
      qed (use all in simp_all)
    next
      case (Cons k ks)
      then have kc: "dict_keys ?d = k # ks" using kd by simp
      have eq: "delete_session now_ts now_iso session_id s
           = (s\<lparr>chat_sessions := ?d, current_session_id := Some k\<rparr>, Inr (Some k))"
        using assms(2) cur kc by (rule delete_session_current_rest)
      have kF: "k \<in> set ?F" using Cons by simp
      then have kK: "k \<in> set ?K" and kne: "k \<noteq> session_id" by simp_all
      have other: "\<not> (\<forall>k. k \<in> set ?K \<longrightarrow> k = session_id)" using kK kne by blast
      show ?thesis
      proof (rule exI [of _ k], intro conjI impI)
        show "current_session_id (fst (delete_session now_ts now_iso session_id s)) = Some k"
          by (simp add: eq)
        show "k \<in> set (dict_keys (chat_sessions (fst (delete_session now_ts now_iso session_id s))))"
          by (simp add: eq kc)
        show "snd (delete_session now_ts now_iso session_id s) = Inr (Some k)"
          by (simp add: eq)
        show "dict_keys (chat_sessions (fst (delete_session now_ts now_iso session_id s))) = ?F"
          by (simp add: eq kd)
        show "session_id \<notin> set (dict_keys (chat_sessions (fst (delete_session now_ts now_iso session_id s))))"
          by (simp add: eq kd)
        show "dict_get (chat_sessions (fst (delete_session now_ts now_iso session_id s))) session_id = None"
          by (simp add: eq gone)
        show "\<forall>k. k \<noteq> session_id \<longrightarrow>
              dict_get (chat_sessions (fst (delete_session now_ts now_iso session_id s))) k
                = dict_get (chat_sessions s) k"
          using kept by (simp add: eq)
        show "k \<noteq> session_id" by (rule kne)
        show "k \<in> set ?K" by (rule kK)
        show "current_session_id s = Some k" if "current_session_id s \<noteq> Some session_id"
          using that cur by simp
        show "k = hd ?F" using Cons by simp
        show "current_session_id s = Some session_id" by (rule cur)
        show "k = ''session_1_'' @ str_of_int now_ts"
          if "\<forall>k. k \<in> set ?K \<longrightarrow> k = session_id"
          using that other by simp
        show "chat_sessions (fst (delete_session now_ts now_iso session_id s))
              = [(k, \<lparr>history = [], created_at = now_iso, title = ''New Chat 1'',
                      pinned = False\<rparr>)]"
          if "\<forall>k. k \<in> set ?K \<longrightarrow> k = session_id"
          using that other by simp
      qed
    qed
  qed
qed

theorem delete_session_current_exists_witness:
  "reachable (step (EvSwitch ''session_1_100'')
         (step (EvCreate 105 ''2024-01-01T10:00:05'')
         (step (EvCreate 100 ''2024-01-01T10:00:00'') initial)))
   \<and> ''session_1_100'' \<in> set (dict_keys (chat_sessions (step (EvSwitch ''session_1_100'')
         (step (EvCreate 105 ''2024-01-01T10:00:05'')
         (step (EvCreate 100 ''2024-01-01T10:00:00'') initial)))))
   \<and> dict_keys (chat_sessions (step (EvSwitch ''session_1_100'')
         (step (EvCreate 105 ''2024-01-01T10:00:05'')
         (step (EvCreate 100 ''2024-01-01T10:00:00'') initial))))
       = [''session_1_100'', ''session_2_105'']
   \<and> current_session_id (step (EvSwitch ''session_1_100'')
         (step (EvCreate 105 ''2024-01-01T10:00:05'')
         (step (EvCreate 100 ''2024-01-01T10:00:00'') initial))) = Some ''session_1_100''
   \<and> current_session_id (fst (delete_session 110 ''2024-01-01T10:00:10'' ''session_1_100''
         (step (EvSwitch ''session_1_100'')
         (step (EvCreate 105 ''2024-01-01T10:00:05'')
         (step (EvCreate 100 ''2024-01-01T10:00:00'') initial))))) = Some ''session_2_105''
   \<and> dict_keys (chat_sessions (fst (delete_session 110 ''2024-01-01T10:00:10'' ''session_1_100''
         (step (EvSwitch ''session_1_100'')
         (step (EvCreate 105 ''2024-01-01T10:00:05'')
         (step (EvCreate 100 ''2024-01-01T10:00:00'') initial))))))
       = [''session_2_105'']
   \<and> reachable (step (EvCreate 100 ''2024-01-01T10:00:00'') initial)
   \<and> ''session_1_100'' \<in> set (dict_keys (chat_sessions (step (EvCreate 100 ''2024-01-01T10:00:00'') initial)))
   \<and> dict_keys (chat_sessions (step (EvCreate 100 ''2024-01-01T10:00:00'') initial)) = [''session_1_100'']
   \<and> current_session_id (fst (delete_session 110 ''2024-01-01T10:00:10'' ''session_1_100''
         (step (EvCreate 100 ''2024-01-01T10:00:00'') initial))) = Some ''session_1_110''
   \<and> chat_sessions (fst (delete_session 110 ''2024-01-01T10:00:10'' ''session_1_100''
         (step (EvCreate 100 ''2024-01-01T10:00:00'') initial)))
       = [(''session_1_110'',
           \<lparr>history = [], created_at = ''2024-01-01T10:00:10'', title = ''New Chat 1'',
            pinned = False\<rparr>)]"
proof -
  let ?a = "(step (EvSwitch ''session_1_100'')
         (step (EvCreate 105 ''2024-01-01T10:00:05'')
         (step (EvCreate 100 ''2024-01-01T10:00:00'') initial)))"
  let ?b = "(step (EvCreate 100 ''2024-01-01T10:00:00'') initial)"
  let ?da = "fst (delete_session 110 ''2024-01-01T10:00:10'' ''session_1_100'' ?a)"
  let ?db = "fst (delete_session 110 ''2024-01-01T10:00:10'' ''session_1_100'' ?b)"
  have ra: "reachable ?a" by (intro reachable.intros)
  have rb: "reachable ?b" by (intro reachable.intros)
  have ka: "dict_keys (chat_sessions ?a) = [''session_1_100'', ''session_2_105'']" by code_simp
  have kb: "dict_keys (chat_sessions ?b) = [''session_1_100'']" by code_simp
  have ca: "current_session_id ?a = Some ''session_1_100''" by code_simp
  have ia: "''session_1_100'' \<in> set (dict_keys (chat_sessions ?a))" unfolding ka by simp
  have ib: "''session_1_100'' \<in> set (dict_keys (chat_sessions ?b))" unfolding kb by simp
  have fa: "filter (\<lambda>k. k \<noteq> ''session_1_100'') (dict_keys (chat_sessions ?a)) = [''session_2_105'']"
    unfolding ka by simp
  have oa: "\<exists>k. k \<in> set (dict_keys (chat_sessions ?a)) \<and> k \<noteq> ''session_1_100''"
    unfolding ka by (rule exI [of _ "''session_2_105''"]) simp
  have ob: "\<forall>k. k \<in> set (dict_keys (chat_sessions ?b)) \<longrightarrow> k = ''session_1_100''"
    unfolding kb by simp
  have ts: "''session_1_'' @ str_of_int 110 = ''session_1_110''" by code_simp
  from delete_session_current_exists [OF ra ia, of 110 "''2024-01-01T10:00:10''"]
  obtain c where a1: "current_session_id ?da = Some c"
    and a2: "(\<exists>k. k \<in> set (dict_keys (chat_sessions ?a)) \<and> k \<noteq> ''session_1_100'') \<longrightarrow>
                 dict_keys (chat_sessions ?da)
                   = filter (\<lambda>k. k \<noteq> ''session_1_100'') (dict_keys (chat_sessions ?a))
                 \<and> ''session_1_100'' \<notin> set (dict_keys (chat_sessions ?da))
                 \<and> dict_get (chat_sessions ?da) ''session_1_100'' = None
                 \<and> (\<forall>k. k \<noteq> ''session_1_100'' \<longrightarrow>
                        dict_get (chat_sessions ?da) k = dict_get (chat_sessions ?a) k)
                 \<and> c \<noteq> ''session_1_100''
                 \<and> c \<in> set (dict_keys (chat_sessions ?a))
                 \<and> (current_session_id ?a \<noteq> Some ''session_1_100'' \<longrightarrow> current_session_id ?a = Some c)
                 \<and> (current_session_id ?a = Some ''session_1_100'' \<longrightarrow>
                        c = hd (filter (\<lambda>k. k \<noteq> ''session_1_100'') (dict_keys (chat_sessions ?a))))"
    by (elim exE conjE)
  note a3 = mp [OF a2 oa]
  have a4: "dict_keys (chat_sessions ?da) = [''session_2_105'']"
    using conjunct1 [OF a3] unfolding fa .
  have "c = hd (filter (\<lambda>k. k \<noteq> ''session_1_100'') (dict_keys (chat_sessions ?a)))"
    by (rule mp [OF conjunct2 [OF conjunct2 [OF conjunct2 [OF conjunct2 [OF conjunct2
              [OF conjunct2 [OF conjunct2 [OF a3]]]]]]] ca])
  then have "c = ''session_2_105''" unfolding fa by simp
  then have a5: "current_session_id ?da = Some ''session_2_105''" using a1 by simp
  from delete_session_current_exists [OF rb ib, of 110 "''2024-01-01T10:00:10''"]
  obtain c' where b1: "current_session_id ?db = Some c'"
    and b2: "(\<forall>k. k \<in> set (dict_keys (chat_sessions ?b)) \<longrightarrow> k = ''session_1_100'') \<longrightarrow>
                 current_session_id ?b = Some ''session_1_100''
                 \<and> c' = ''session_1_'' @ str_of_int 110
                 \<and> chat_sessions ?db
                     = [(c', \<lparr>history = [], created_at = ''2024-01-01T10:00:10'',
                              title = ''New Chat 1'', pinned = False\<rparr>)]"
    by (elim exE conjE)
  note b3 = mp [OF b2 ob]
  have cb: "c' = ''session_1_110''" using conjunct1 [OF conjunct2 [OF b3]] unfolding ts .
  have b4: "current_session_id ?db = Some ''session_1_110''" using b1 unfolding cb .
  have b5: "chat_sessions ?db
              = [(''session_1_110'', \<lparr>history = [], created_at = ''2024-01-01T10:00:10'',
                   title = ''New Chat 1'', pinned = False\<rparr>)]"
    using conjunct2 [OF conjunct2 [OF b3]] unfolding cb .
  show ?thesis
    by (intro conjI)
       (rule ra, rule ia, rule ka, rule ca, rule a5, rule a4, rule rb, rule ib, rule kb,
        rule b4, rule b5)
qed

section \<open>The default session\<close>

text \<open>
  Claim C5: \<open>get_or_create_default_session\<close> is idempotent. On an empty registry it
  creates exactly one session, makes it current and returns it, and a second call (at any
  later clock reading) returns the same session and leaves that state as it is. On a
  non-empty registry a call that returns leaves the state unchanged, and in every
  reachable state with a non-empty registry it does return: the session stored under the
  current id.
\<close>

theorem get_or_create_default_session_idempotent:
  "(chat_sessions s = [] \<longrightarrow>
      (\<exists>s' sid sess.
          get_or_create_default_session now_ts now_iso s = Inr (s', sid, sess)
          \<and> chat_sessions s' = [(sid, sess)]
          \<and> current_session_id s' = Some sid
          \<and> get_or_create_default_session now_ts' now_iso' s' = Inr (s', sid, sess)))
   \<and> (chat_sessions s \<noteq> [] \<longrightarrow>
        (\<forall>s' c sess. get_or_create_default_session now_ts now_iso s = Inr (s', c, sess) \<longrightarrow> s' = s))
   \<and> (chat_sessions s \<noteq> [] \<and> reachable s \<longrightarrow>
        (\<exists>c sess. current_session_id s = Some c
                  \<and> dict_get (chat_sessions s) c = Some sess
                  \<and> get_or_create_default_session now_ts now_iso s = Inr (s, c, sess)))"
proof (intro conjI impI allI)
  assume "chat_sessions s = []"
  then show "\<exists>s' sid sess.
          get_or_create_default_session now_ts now_iso s = Inr (s', sid, sess)
          \<and> chat_sessions s' = [(sid, sess)]
          \<and> current_session_id s' = Some sid
          \<and> get_or_create_default_session now_ts' now_iso' s' = Inr (s', sid, sess)"
    by (rule get_or_create_twice)
next
  fix s' c sess
  assume "chat_sessions s \<noteq> []"
    and "get_or_create_default_session now_ts now_iso s = Inr (s', c, sess)"
  then show "s' = s" by (rule get_or_create_nonempty_state)
next
  assume a: "chat_sessions s \<noteq> [] \<and> reachable s"
  show "\<exists>c sess. current_session_id s = Some c
                  \<and> dict_get (chat_sessions s) c = Some sess
                  \<and> get_or_create_default_session now_ts now_iso s = Inr (s, c, sess)"
    using a by (intro get_or_create_reachable) simp_all
qed

theorem get_or_create_default_session_idempotent_witness:
  "chat_sessions initial = []
   \<and> (\<exists>s' sid sess.
          get_or_create_default_session 100 ''2024-01-01T10:00:00'' initial = Inr (s', sid, sess)
          \<and> chat_sessions s' = [(sid, sess)]
          \<and> current_session_id s' = Some sid
          \<and> get_or_create_default_session 200 ''2024-01-01T10:01:40'' s' = Inr (s', sid, sess))
   \<and> chat_sessions (step (EvIndex 100 ''2024-01-01T10:00:00'') initial) \<noteq> []
   \<and> reachable (step (EvIndex 100 ''2024-01-01T10:00:00'') initial)
   \<and> (\<exists>c sess.
          current_session_id (step (EvIndex 100 ''2024-01-01T10:00:00'') initial) = Some c
          \<and> dict_get (chat_sessions (step (EvIndex 100 ''2024-01-01T10:00:00'') initial)) c = Some sess
          \<and> get_or_create_default_session 200 ''2024-01-01T10:01:40''
               (step (EvIndex 100 ''2024-01-01T10:00:00'') initial)
             = Inr (step (EvIndex 100 ''2024-01-01T10:00:00'') initial, c, sess))"
proof -
  let ?s = "step (EvIndex 100 ''2024-01-01T10:00:00'') initial"
  note t1 = get_or_create_default_session_idempotent
        [of initial 100 "''2024-01-01T10:00:00''" 200 "''2024-01-01T10:01:40''"]
  note t2 = get_or_create_default_session_idempotent
        [of ?s 200 "''2024-01-01T10:01:40''" 200 "''2024-01-01T10:01:40''"]
  have e: "chat_sessions initial = []" by (simp add: initial_def)
  have r: "reachable ?s" by (intro reachable.intros)
  have n: "chat_sessions ?s \<noteq> []" by code_simp
  have a: "\<exists>s' sid sess.
          get_or_create_default_session 100 ''2024-01-01T10:00:00'' initial = Inr (s', sid, sess)
          \<and> chat_sessions s' = [(sid, sess)]
          \<and> current_session_id s' = Some sid
          \<and> get_or_create_default_session 200 ''2024-01-01T10:01:40'' s' = Inr (s', sid, sess)"
    by (rule mp [OF conjunct1 [OF t1] e])
  have b: "\<exists>c sess.
          current_session_id ?s = Some c
          \<and> dict_get (chat_sessions ?s) c = Some sess
          \<and> get_or_create_default_session 200 ''2024-01-01T10:01:40'' ?s = Inr (?s, c, sess)"
    by (rule mp [OF conjunct2 [OF conjunct2 [OF t2]] conjI [OF n r]])
  show ?thesis
    by (intro conjI) (rule e, rule a, rule n, rule r, rule b)
qed

section \<open>Counting the messages of a session\<close>

text \<open>
  Claim C6: the listing has one item for each session of the registry, and the
  \<open>message_count\<close> of the item of a session is the number of turns in the history of that
  session whose role is \<^verbatim>\<open>user\<close>; turns with any other role are not counted.
\<close>

theorem message_count_counts_user_turns:
  "length (fst (get_sessions s)) = length (chat_sessions s)
   \<and> (\<forall>x \<in> set (fst (get_sessions s)).
         \<exists>d. (item_id x, d) \<in> set (chat_sessions s)
              \<and> message_count x = length (filter (\<lambda>c. role c = ''user'') (history d)))
   \<and> (\<forall>kv \<in> set (chat_sessions s).
         \<exists>x. x \<in> set (fst (get_sessions s))
              \<and> item_id x = fst kv
              \<and> message_count x = length (filter (\<lambda>c. role c = ''user'') (history (snd kv))))"
proof (intro conjI ballI)
  show "length (fst (get_sessions s)) = length (chat_sessions s)"
    by (simp add: get_sessions_def length_sort_reverse)
next
  fix x assume "x \<in> set (fst (get_sessions s))"
  then have "x \<in> summarize ` set (chat_sessions s)"
    by (simp add: get_sessions_def set_sort_reverse)
  then obtain kv where kv: "kv \<in> set (chat_sessions s)" "x = summarize kv" by (elim imageE)
  have "(item_id x, snd kv) \<in> set (chat_sessions s)"
    using kv by (simp add: summarize_def)
  moreover have "message_count x = length (filter (\<lambda>c. role c = ''user'') (history (snd kv)))"
    using kv(2) by (simp add: summarize_def)
  ultimately show "\<exists>d. (item_id x, d) \<in> set (chat_sessions s)
              \<and> message_count x = length (filter (\<lambda>c. role c = ''user'') (history d))"
    by (intro exI conjI)
next
  fix kv assume kv: "kv \<in> set (chat_sessions s)"
  have "summarize kv \<in> set (fst (get_sessions s))"
    using kv by (simp add: get_sessions_def set_sort_reverse)
  moreover have "item_id (summarize kv) = fst kv" by (simp add: summarize_def)
  moreover have "message_count (summarize kv)
      = length (filter (\<lambda>c. role c = ''user'') (history (snd kv)))"
    by (simp add: summarize_def)
  ultimately show "\<exists>x. x \<in> set (fst (get_sessions s))
              \<and> item_id x = fst kv
              \<and> message_count x = length (filter (\<lambda>c. role c = ''user'') (history (snd kv)))"
    by (intro exI conjI)
qed

theorem message_count_counts_user_turns_witness:
  "(''session_1_7'',
      \<lparr>history = [\<lparr>role = ''user'', parts = [TextPart ''hi'']\<rparr>,
                  \<lparr>role = ''model'', parts = [TextPart ''hello'']\<rparr>],
       created_at = ''2024-01-01T10:00:07'', title = ''hi'', pinned = False\<rparr>)
     \<in> set (chat_sessions
          \<lparr>chat_sessions =
             [(''session_1_7'',
               \<lparr>history = [\<lparr>role = ''user'', parts = [TextPart ''hi'']\<rparr>,
                           \<lparr>role = ''model'', parts = [TextPart ''hello'']\<rparr>],
                created_at = ''2024-01-01T10:00:07'', title = ''hi'', pinned = False\<rparr>)],
           current_session_id = Some ''session_1_7''\<rparr>)
   \<and> (\<exists>x. x \<in> set (fst (get_sessions
          \<lparr>chat_sessions =
             [(''session_1_7'',
               \<lparr>history = [\<lparr>role = ''user'', parts = [TextPart ''hi'']\<rparr>,
                           \<lparr>role = ''model'', parts = [TextPart ''hello'']\<rparr>],
                created_at = ''2024-01-01T10:00:07'', title = ''hi'', pinned = False\<rparr>)],
           current_session_id = Some ''session_1_7''\<rparr>))
         \<and> item_id x = ''session_1_7'' \<and> message_count x = 1)"
proof -
  let ?d = "\<lparr>history = [\<lparr>role = ''user'', parts = [TextPart ''hi'']\<rparr>,
                         \<lparr>role = ''model'', parts = [TextPart ''hello'']\<rparr>],
               created_at = ''2024-01-01T10:00:07'', title = ''hi'', pinned = False\<rparr>"
  let ?s = "\<lparr>chat_sessions = [(''session_1_7'', ?d)], current_session_id = Some ''session_1_7''\<rparr>"
  have m: "(''session_1_7'', ?d) \<in> set (chat_sessions ?s)" by simp
  have "\<forall>kv \<in> set (chat_sessions ?s).
         \<exists>x. x \<in> set (fst (get_sessions ?s))
              \<and> item_id x = fst kv
              \<and> message_count x = length (filter (\<lambda>c. role c = ''user'') (history (snd kv)))"
    by (rule conjunct2 [OF conjunct2 [OF message_count_counts_user_turns [of ?s]]])
  from bspec [OF this m]
  obtain x where x: "x \<in> set (fst (get_sessions ?s))" "item_id x = fst (''session_1_7'', ?d)"
      "message_count x = length (filter (\<lambda>c. role c = ''user'') (history (snd (''session_1_7'', ?d))))"
    by (elim exE conjE)
  have "item_id x = ''session_1_7''" using x(2) by simp
  moreover have "message_count x = 1" using x(3) by simp
  ultimately have "\<exists>x. x \<in> set (fst (get_sessions ?s))
         \<and> item_id x = ''session_1_7'' \<and> message_count x = 1"
    using x(1) by (intro exI conjI)
  with m show ?thesis by (intro conjI)
qed

section \<open>Updating a session\<close>

text \<open>
  Claim C7: \<open>update_session\<close> answers 404 exactly when the id is not in the registry, and
  then leaves the state as it is. When the id is present and the body is an object whose
  \<open>title\<close>, if provided, is a string, the request succeeds and the session becomes what
  the specification's update makes of it: the title is the trimmed new title unless that
  is empty (a title of whitespace only keeps the old one), \<open>pinned\<close> is the truth value of
  the provided value, and a field that is not provided is unchanged; every other session,
  the order of the registry and the current id are unchanged.
\<close>

theorem update_session_meets_spec:
  "(snd (update_session session_id body s) = Inl Http404
      \<longleftrightarrow> session_id \<notin> set (dict_keys (chat_sessions s)))
   \<and> (session_id \<notin> set (dict_keys (chat_sessions s))
        \<longrightarrow> fst (update_session session_id body s) = s)
   \<and> (session_id \<in> set (dict_keys (chat_sessions s))
        \<and> json_or_empty body = JObj kvs
        \<and> map_of kvs ''title'' = map_option JStr new_title
        \<and> map_of kvs ''pinned'' = new_pinned
        \<longrightarrow> snd (update_session session_id body s) = Inr ()
            \<and> dict_keys (chat_sessions (fst (update_session session_id body s)))
                = dict_keys (chat_sessions s)
            \<and> current_session_id (fst (update_session session_id body s)) = current_session_id s
            \<and> (\<forall>k. dict_get (chat_sessions (fst (update_session session_id body s))) k
                     = (if k = session_id
                        then map_option (update_spec new_title new_pinned) (dict_get (chat_sessions s) k)
                        else dict_get (chat_sessions s) k)))"
proof (intro conjI impI)
  show "snd (update_session session_id body s) = Inl Http404
      \<longleftrightarrow> session_id \<notin> set (dict_keys (chat_sessions s))"
    by (rule update_session_404)
next
  assume "session_id \<notin> set (dict_keys (chat_sessions s))"
  then show "fst (update_session session_id body s) = s" by (rule update_session_absent)
next
  assume a: "session_id \<in> set (dict_keys (chat_sessions s))
        \<and> json_or_empty body = JObj kvs
        \<and> map_of kvs ''title'' = map_option JStr new_title
        \<and> map_of kvs ''pinned'' = new_pinned"
  have u: "update_session session_id body s =
           (with_session s session_id (update_spec new_title new_pinned), Inr ())"
    by (rule update_session_obj
          [OF conjunct1 [OF a] conjunct1 [OF conjunct2 [OF a]]
              conjunct1 [OF conjunct2 [OF conjunct2 [OF a]]]
              conjunct2 [OF conjunct2 [OF conjunct2 [OF a]]]])
  show "snd (update_session session_id body s) = Inr ()" by (simp add: u)
  show "dict_keys (chat_sessions (fst (update_session session_id body s)))
                = dict_keys (chat_sessions s)" by (simp add: u)
  show "current_session_id (fst (update_session session_id body s)) = current_session_id s"
    by (simp add: u)
  show "\<forall>k. dict_get (chat_sessions (fst (update_session session_id body s))) k
                     = (if k = session_id
                        then map_option (update_spec new_title new_pinned) (dict_get (chat_sessions s) k)
                        else dict_get (chat_sessions s) k)"
    by (simp add: u dict_get_with_session)
qed

theorem update_session_meets_spec_witness:
  "''session_1_100'' \<in> set (dict_keys (chat_sessions
       \<lparr>chat_sessions =
          [(''session_1_100'',
            \<lparr>history = [], created_at = ''2024-01-01T10:00:00'', title = ''New Chat 1'',
             pinned = False\<rparr>)],
        current_session_id = Some ''session_1_100''\<rparr>))
   \<and> json_or_empty (Some (JObj [(''title'', JStr ''  Hello ''), (''pinned'', JNum 1)]))
       = JObj [(''title'', JStr ''  Hello ''), (''pinned'', JNum 1)]
   \<and> map_of [(''title'', JStr ''  Hello ''), (''pinned'', JNum 1)] ''title''
       = map_option JStr (Some ''  Hello '')
   \<and> map_of [(''title'', JStr ''  Hello ''), (''pinned'', JNum 1)] ''pinned'' = Some (JNum 1)
   \<and> snd (update_session ''session_1_100''
            (Some (JObj [(''title'', JStr ''  Hello ''), (''pinned'', JNum 1)]))
            \<lparr>chat_sessions =
               [(''session_1_100'',
                 \<lparr>history = [], created_at = ''2024-01-01T10:00:00'', title = ''New Chat 1'',
                  pinned = False\<rparr>)],
             current_session_id = Some ''session_1_100''\<rparr>) = Inr ()
   \<and> dict_get (chat_sessions (fst (update_session ''session_1_100''
            (Some (JObj [(''title'', JStr ''  Hello ''), (''pinned'', JNum 1)]))
            \<lparr>chat_sessions =
               [(''session_1_100'',
                 \<lparr>history = [], created_at = ''2024-01-01T10:00:00'', title = ''New Chat 1'',
                  pinned = False\<rparr>)],
             current_session_id = Some ''session_1_100''\<rparr>))) ''session_1_100''
       = Some \<lparr>history = [], created_at = ''2024-01-01T10:00:00'', title = ''Hello'',
               pinned = True\<rparr>"
proof -
  let ?d = "\<lparr>history = [], created_at = ''2024-01-01T10:00:00'', title = ''New Chat 1'',
              pinned = False\<rparr>"
  let ?s = "\<lparr>chat_sessions = [(''session_1_100'', ?d)],
              current_session_id = Some ''session_1_100''\<rparr>"
  let ?kvs = "[(''title'', JStr ''  Hello ''), (''pinned'', JNum 1)]"
  have h1: "''session_1_100'' \<in> set (dict_keys (chat_sessions ?s))"
    by (simp add: dict_keys_def)
  have h2: "json_or_empty (Some (JObj ?kvs)) = JObj ?kvs"
    by (simp add: json_or_empty_def)
  have h3: "map_of ?kvs ''title'' = map_option JStr (Some ''  Hello '')" by simp
  have h4: "map_of ?kvs ''pinned'' = Some (JNum 1)" by simp
  have st: "strip ''  Hello '' = ''Hello''" by code_simp
  have us: "update_spec (Some ''  Hello '') (Some (JNum 1)) ?d
              = \<lparr>history = [], created_at = ''2024-01-01T10:00:00'', title = ''Hello'',
                 pinned = True\<rparr>"
    by (simp add: update_spec_def st)
  note t = update_session_meets_spec
      [of "''session_1_100''" "Some (JObj ?kvs)" ?s ?kvs "Some ''  Hello ''" "Some (JNum 1)"]
  note c = mp [OF conjunct2 [OF conjunct2 [OF t]] conjI [OF h1 conjI [OF h2 conjI [OF h3 h4]]]]
  have r1: "snd (update_session ''session_1_100'' (Some (JObj ?kvs)) ?s) = Inr ()"
    by (rule conjunct1 [OF c])
  have "dict_get (chat_sessions (fst (update_session ''session_1_100'' (Some (JObj ?kvs)) ?s)))
            ''session_1_100''
        = (if ''session_1_100'' = ''session_1_100''
           then map_option (update_spec (Some ''  Hello '') (Some (JNum 1)))
                  (dict_get (chat_sessions ?s) ''session_1_100'')
           else dict_get (chat_sessions ?s) ''session_1_100'')"
    by (rule spec [OF conjunct2 [OF conjunct2 [OF conjunct2 [OF c]]]])
  then have r2: "dict_get (chat_sessions (fst (update_session ''session_1_100'' (Some (JObj ?kvs)) ?s)))
            ''session_1_100''
        = Some \<lparr>history = [], created_at = ''2024-01-01T10:00:00'', title = ''Hello'',
                pinned = True\<rparr>"
    by (simp add: us)
  show ?thesis
    by (intro conjI) (rule h1, rule h2, rule h3, rule h4, rule r1, rule r2)
qed

section \<open>Chat without input\<close>

text \<open>
  Claim C8: a chat request with no message text and no images is answered with status 200
  and the fixed prompt, and the registry is left exactly as it was, so no turn is appended
  to any history. The request is a multipart form whose message is missing, empty or
  whitespace only and whose files, if any, all have an empty filename (such files are
  skipped), or a JSON body that is an object (or did not parse) whose message is missing
  or a string that is empty or whitespace only.
\<close>

theorem chat_empty_input:
  "(req = Multipart msg files
      \<and> strip (case msg of None \<Rightarrow> [] | Some m \<Rightarrow> m) = []
      \<and> (\<forall>f \<in> set files. filename f = []))
   \<or> (req = JsonBody body
      \<and> json_or_empty body = JObj kvs
      \<and> (map_of kvs ''message'' = None
          \<or> (\<exists>m. map_of kvs ''message'' = Some (JStr m) \<and> strip m = [])))
   \<longrightarrow> chat w req s = (s, Inr (''Please type or upload something.'', now_time (w_now w)))"
proof (intro impI)
  assume h: "(req = Multipart msg files
      \<and> strip (case msg of None \<Rightarrow> [] | Some m \<Rightarrow> m) = []
      \<and> (\<forall>f \<in> set files. filename f = []))
   \<or> (req = JsonBody body
      \<and> json_or_empty body = JObj kvs
      \<and> (map_of kvs ''message'' = None
          \<or> (\<exists>m. map_of kvs ''message'' = Some (JStr m) \<and> strip m = [])))"
  have "chat_input (from_bytes_ok w) req = Inr ([], [])"
  proof (rule disjE [OF h])
    assume a: "req = Multipart msg files
      \<and> strip (case msg of None \<Rightarrow> [] | Some m \<Rightarrow> m) = []
      \<and> (\<forall>f \<in> set files. filename f = [])"
    show ?thesis
      unfolding conjunct1 [OF a]
      by (rule chat_input_multipart_empty
            [OF conjunct1 [OF conjunct2 [OF a]] conjunct2 [OF conjunct2 [OF a]]])
  next
    assume b: "req = JsonBody body
      \<and> json_or_empty body = JObj kvs
      \<and> (map_of kvs ''message'' = None
          \<or> (\<exists>m. map_of kvs ''message'' = Some (JStr m) \<and> strip m = []))"
    show ?thesis
      unfolding conjunct1 [OF b]
      by (rule chat_input_json_empty
            [OF conjunct1 [OF conjunct2 [OF b]] conjunct2 [OF conjunct2 [OF b]]])
  qed
  then show "chat w req s = (s, Inr (''Please type or upload something.'', now_time (w_now w)))"
    by (rule chat_no_input)
qed

theorem chat_empty_input_witness:
  "json_or_empty (Some (JObj [(''message'', JStr ''   '')])) = JObj [(''message'', JStr ''   '')]
   \<and> map_of [(''message'', JStr ''   '')] ''message'' = Some (JStr ''   '')
   \<and> strip ''   '' = []
   \<and> chat \<lparr>w_ts = 100, w_iso = ''2024-01-01T10:05:00'',
            w_now = \<lparr>dt_hour = 10, dt_minute = 5, dt_second = 0\<rparr>,
            from_bytes_ok = (\<lambda>b m. True),
            generate_content_stream = (\<lambda>m h. ([Some ''hello''], None))\<rparr>
          (JsonBody (Some (JObj [(''message'', JStr ''   '')])))
          (step (EvCreate 100 ''2024-01-01T10:00:00'') initial)
       = (step (EvCreate 100 ''2024-01-01T10:00:00'') initial,
          Inr (''Please type or upload something.'', ''10:05''))
   \<and> strip (case Some ''  '' of None \<Rightarrow> [] | Some m \<Rightarrow> m) = []
   \<and> chat \<lparr>w_ts = 100, w_iso = ''2024-01-01T10:05:00'',
            w_now = \<lparr>dt_hour = 10, dt_minute = 5, dt_second = 0\<rparr>,
            from_bytes_ok = (\<lambda>b m. True),
            generate_content_stream = (\<lambda>m h. ([Some ''hello''], None))\<rparr>
          (Multipart (Some ''  '') [])
          (step (EvCreate 100 ''2024-01-01T10:00:00'') initial)
       = (step (EvCreate 100 ''2024-01-01T10:00:00'') initial,
          Inr (''Please type or upload something.'', ''10:05''))"
proof -
  let ?w = "\<lparr>w_ts = 100, w_iso = ''2024-01-01T10:05:00'',
            w_now = \<lparr>dt_hour = 10, dt_minute = 5, dt_second = 0\<rparr>,
            from_bytes_ok = (\<lambda>b m. True),
            generate_content_stream = (\<lambda>m h. ([Some ''hello''], None))\<rparr>"
  let ?s = "step (EvCreate 100 ''2024-01-01T10:00:00'') initial"
  let ?kvs = "[(''message'', JStr ''   '')]"
  have h1: "json_or_empty (Some (JObj ?kvs)) = JObj ?kvs" by (simp add: json_or_empty_def)
  have h2: "map_of ?kvs ''message'' = Some (JStr ''   '')" by simp
  have h3: "strip ''   '' = []" by code_simp
  have h4: "strip (case Some ''  '' of None \<Rightarrow> [] | Some m \<Rightarrow> m) = []" by code_simp
  have nt: "now_time (w_now ?w) = ''10:05''" by code_simp
  have e: "\<exists>m. map_of ?kvs ''message'' = Some (JStr m) \<and> strip m = []"
    using h2 h3 by (intro exI conjI)
  have "chat ?w (JsonBody (Some (JObj ?kvs))) ?s
          = (?s, Inr (''Please type or upload something.'', now_time (w_now ?w)))"
    by (rule mp [OF chat_empty_input
           [of "JsonBody (Some (JObj ?kvs))" None "[]" "Some (JObj ?kvs)" ?kvs ?w ?s]
         disjI2 [OF conjI [OF refl conjI [OF h1 disjI2 [OF e]]]]])
  then have r1: "chat ?w (JsonBody (Some (JObj ?kvs))) ?s
          = (?s, Inr (''Please type or upload something.'', ''10:05''))"
    unfolding nt .
  have a: "\<forall>f \<in> set ([] :: upload list). filename f = []" by simp
  have "chat ?w (Multipart (Some ''  '') []) ?s
          = (?s, Inr (''Please type or upload something.'', now_time (w_now ?w)))"
    by (rule mp [OF chat_empty_input
           [of "Multipart (Some ''  '') []" "Some ''  ''" "[]" None "[]" ?w ?s]
         disjI1 [OF conjI [OF refl conjI [OF h4 a]]]])
  then have r2: "chat ?w (Multipart (Some ''  '') []) ?s
          = (?s, Inr (''Please type or upload something.'', ''10:05''))"
    unfolding nt .
  show ?thesis
    by (intro conjI) (rule h1, rule h2, rule h3, rule r1, rule h4, rule r2)
qed

section \<open>The MIME type of an upload\<close>

text \<open>
  Claim C9 (the declared content type is used unless it is \<^verbatim>\<open>application/octet-stream\<close>, and
  only then is the type guessed from the extension). The source starts from
  \<^verbatim>\<open>f.mimetype or "application/octet-stream"\<close>: an upload that declares no content type has
  an empty \<open>mimetype\<close>, which is not \<^verbatim>\<open>application/octet-stream\<close>, and its type is guessed
  all the same. The first theorem shows it for a file \<^verbatim>\<open>photo.png\<close> without a declared
  type. The second theorem is the claim as amended: the type used is the declared one
  when that is neither empty nor \<^verbatim>\<open>application/octet-stream\<close>; otherwise it is guessed
  from the extension of the filename in lower case (\<^verbatim>\<open>.png\<close>, \<^verbatim>\<open>.jpg\<close> or \<^verbatim>\<open>.jpeg\<close>,
  \<^verbatim>\<open>.webp\<close>, and \<^verbatim>\<open>image/*\<close> for anything else); and the image parts of a multipart
  request are the uploads with a filename that the library accepts, each with that type.
\<close>

theorem choose_mime_without_declared_type:
  "mimetype \<lparr>filename = ''photo.png'', mimetype = [], file_data = ''x''\<rparr>
     \<noteq> ''application/octet-stream''
   \<and> choose_mime \<lparr>filename = ''photo.png'', mimetype = [], file_data = ''x''\<rparr> = ''image/png''
   \<and> choose_mime \<lparr>filename = ''photo.png'', mimetype = [], file_data = ''x''\<rparr>
     \<noteq> mimetype \<lparr>filename = ''photo.png'', mimetype = [], file_data = ''x''\<rparr>"
  by code_simp

theorem choose_mime_declared_or_guessed:
  "(mimetype f \<noteq> [] \<and> mimetype f \<noteq> ''application/octet-stream''
      \<longrightarrow> choose_mime f = mimetype f)
   \<and> (mimetype f = [] \<or> mimetype f = ''application/octet-stream''
      \<longrightarrow> choose_mime f =
            (if endswith (lower (filename f)) ''.png'' then ''image/png''
             else if endswith (lower (filename f)) ''.jpg'' \<or> endswith (lower (filename f)) ''.jpeg''
                  then ''image/jpeg''
             else if endswith (lower (filename f)) ''.webp'' then ''image/webp''
             else ''image/*''))
   \<and> chat_input ok (Multipart msg files) =
        Inr (strip (case msg of None \<Rightarrow> [] | Some m \<Rightarrow> m),
             map (\<lambda>f. InlineData (file_data f) (choose_mime f))
               (filter (\<lambda>f. filename f \<noteq> [] \<and> ok (file_data f) (choose_mime f)) files))"
proof (intro conjI impI)
  assume "mimetype f \<noteq> [] \<and> mimetype f \<noteq> ''application/octet-stream''"
  then show "choose_mime f = mimetype f"
    by (simp add: choose_mime_def Let_def)
next
  assume "mimetype f = [] \<or> mimetype f = ''application/octet-stream''"
  then show "choose_mime f =
            (if endswith (lower (filename f)) ''.png'' then ''image/png''
             else if endswith (lower (filename f)) ''.jpg'' \<or> endswith (lower (filename f)) ''.jpeg''
                  then ''image/jpeg''
             else if endswith (lower (filename f)) ''.webp'' then ''image/webp''
             else ''image/*'')"
    by (auto simp: choose_mime_def Let_def)
next
  show "chat_input ok (Multipart msg files) =
        Inr (strip (case msg of None \<Rightarrow> [] | Some m \<Rightarrow> m),
             map (\<lambda>f. InlineData (file_data f) (choose_mime f))
               (filter (\<lambda>f. filename f \<noteq> [] \<and> ok (file_data f) (choose_mime f)) files))"
    by (simp add: chat_input_def image_parts_of_eq)
qed

theorem choose_mime_declared_or_guessed_witness:
  "mimetype \<lparr>filename = ''scan.png'', mimetype = ''image/gif'', file_data = ''x''\<rparr> \<noteq> []
   \<and> mimetype \<lparr>filename = ''scan.png'', mimetype = ''image/gif'', file_data = ''x''\<rparr>
       \<noteq> ''application/octet-stream''
   \<and> choose_mime \<lparr>filename = ''scan.png'', mimetype = ''image/gif'', file_data = ''x''\<rparr>
       = ''image/gif''
   \<and> mimetype \<lparr>filename = ''Photo.JPEG'', mimetype = ''application/octet-stream'',
                file_data = ''x''\<rparr> = ''application/octet-stream''
   \<and> choose_mime \<lparr>filename = ''Photo.JPEG'', mimetype = ''application/octet-stream'',
                   file_data = ''x''\<rparr> = ''image/jpeg''"
proof -
  let ?f = "\<lparr>filename = ''scan.png'', mimetype = ''image/gif'', file_data = ''x''\<rparr>"
  let ?g = "\<lparr>filename = ''Photo.JPEG'', mimetype = ''application/octet-stream'',
             file_data = ''x''\<rparr>"
  have h1: "mimetype ?f \<noteq> []" by simp
  have h2: "mimetype ?f \<noteq> ''application/octet-stream''" by simp
  have h3: "mimetype ?g = ''application/octet-stream''" by simp
  have "choose_mime ?f = mimetype ?f"
    by (rule mp [OF conjunct1 [OF choose_mime_declared_or_guessed [of ?f "\<lambda>b m. True" None "[]"]]
                 conjI [OF h1 h2]])
  then have r1: "choose_mime ?f = ''image/gif''" by simp
  have p: "\<not> endswith (lower (filename ?g)) ''.png''" by code_simp
  have q: "endswith (lower (filename ?g)) ''.jpeg''" by code_simp
  have "choose_mime ?g =
            (if endswith (lower (filename ?g)) ''.png'' then ''image/png''
             else if endswith (lower (filename ?g)) ''.jpg'' \<or> endswith (lower (filename ?g)) ''.jpeg''
                  then ''image/jpeg''
             else if endswith (lower (filename ?g)) ''.webp'' then ''image/webp''
             else ''image/*'')"
    by (rule mp [OF conjunct1 [OF conjunct2
                   [OF choose_mime_declared_or_guessed [of ?g "\<lambda>b m. True" None "[]"]]]
                 disjI2 [OF h3]])
  then have r2: "choose_mime ?g = ''image/jpeg''"
    using p q by simp
  show ?thesis
    by (intro conjI) (rule h1, rule h2, rule r1, rule h3, rule r2)
qed

section \<open>The timestamps of a fetched session\<close>

text \<open>
  Claim C10 (all messages of a fetched session carry one timestamp, and fetches at two
  different times carry different ones). No time is stored with a turn: the source calls
  \<open>now_time()\<close> once for each message while it builds the response, and the timestamp is
  the hour and minute of that reading. The first theorem fetches a session of two turns
  three times: with the clock passing from 10:59:59 to 11:00:00 between the two messages,
  which then carry different timestamps, and at 10:59:01 and at 10:59:50, two different
  times at which the responses are the same. The second theorem is the claim as amended:
  the timestamp of a message is the \<^verbatim>\<open>HH:MM\<close> of the clock when that message is built,
  whatever the turn and whenever it was appended; when the clock shows one \<^verbatim>\<open>HH:MM\<close>
  during the whole fetch, every message carries it; and two fetches of the same unchanged
  session give the same response exactly when their readings agree in \<^verbatim>\<open>HH:MM\<close> message
  by message.
\<close>

theorem get_session_clock_example:
  "get_session ((!) [\<lparr>dt_hour = 10, dt_minute = 59, dt_second = 59\<rparr>, \<lparr>dt_hour = 11, dt_minute = 0, dt_second = 0\<rparr>])
     ''session_1_100''
     \<lparr>chat_sessions =
        [(''session_1_100'',
          \<lparr>history = [\<lparr>role = ''user'', parts = [TextPart ''hi'']\<rparr>,
                      \<lparr>role = ''model'', parts = [TextPart ''hello'']\<rparr>],
           created_at = ''2024-01-01T10:00:00'', title = ''hi'', pinned = False\<rparr>)],
      current_session_id = Some ''session_1_100''\<rparr>
   = Inr \<lparr>view_id = ''session_1_100'', view_title = ''hi'',
            view_created_at = ''2024-01-01T10:00:00'',
            messages =
              [\<lparr>msg_role = ''user'', timestamp = ''10:59'', msg_parts = [(''text'', ''hi'')]\<rparr>,
               \<lparr>msg_role = ''model'', timestamp = ''11:00'',
                msg_parts = [(''text'', ''hello'')]\<rparr>]\<rparr>
   \<and> get_session ((!) [\<lparr>dt_hour = 10, dt_minute = 59, dt_second = 1\<rparr>, \<lparr>dt_hour = 10, dt_minute = 59, dt_second = 1\<rparr>])
     ''session_1_100''
     \<lparr>chat_sessions =
        [(''session_1_100'',
          \<lparr>history = [\<lparr>role = ''user'', parts = [TextPart ''hi'']\<rparr>,
                      \<lparr>role = ''model'', parts = [TextPart ''hello'']\<rparr>],
           created_at = ''2024-01-01T10:00:00'', title = ''hi'', pinned = False\<rparr>)],
      current_session_id = Some ''session_1_100''\<rparr>
   = Inr \<lparr>view_id = ''session_1_100'', view_title = ''hi'',
            view_created_at = ''2024-01-01T10:00:00'',
            messages =
              [\<lparr>msg_role = ''user'', timestamp = ''10:59'', msg_parts = [(''text'', ''hi'')]\<rparr>,
               \<lparr>msg_role = ''model'', timestamp = ''10:59'',
                msg_parts = [(''text'', ''hello'')]\<rparr>]\<rparr>
   \<and> get_session ((!) [\<lparr>dt_hour = 10, dt_minute = 59, dt_second = 50\<rparr>, \<lparr>dt_hour = 10, dt_minute = 59, dt_second = 50\<rparr>])
     ''session_1_100''
     \<lparr>chat_sessions =
        [(''session_1_100'',
          \<lparr>history = [\<lparr>role = ''user'', parts = [TextPart ''hi'']\<rparr>,
                      \<lparr>role = ''model'', parts = [TextPart ''hello'']\<rparr>],
           created_at = ''2024-01-01T10:00:00'', title = ''hi'', pinned = False\<rparr>)],
      current_session_id = Some ''session_1_100''\<rparr>
   = Inr \<lparr>view_id = ''session_1_100'', view_title = ''hi'',
            view_created_at = ''2024-01-01T10:00:00'',
            messages =
              [\<lparr>msg_role = ''user'', timestamp = ''10:59'', msg_parts = [(''text'', ''hi'')]\<rparr>,
               \<lparr>msg_role = ''model'', timestamp = ''10:59'',
                msg_parts = [(''text'', ''hello'')]\<rparr>]\<rparr>"
  by code_simp

theorem get_session_timestamps:
  "dict_get (chat_sessions s) sid = Some sess \<longrightarrow>
     (\<exists>v. get_session clock sid s = Inr v
          \<and> length (messages v) = length (history sess)
          \<and> (\<forall>i < length (history sess).
                 messages v ! i =
                   \<lparr>msg_role = role (history sess ! i), timestamp = now_time (clock i),
                    msg_parts = map part_view (parts (history sess ! i))\<rparr>)
          \<and> ((\<forall>i < length (history sess). now_time (clock i) = t)
                \<longrightarrow> (\<forall>i < length (history sess). timestamp (messages v ! i) = t)))
     \<and> (get_session clock sid s = get_session clock' sid s
          \<longleftrightarrow> (\<forall>i < length (history sess). now_time (clock i) = now_time (clock' i)))"
proof (intro impI conjI)
  assume g: "dict_get (chat_sessions s) sid = Some sess"
  let ?ms = "map (\<lambda>(i, c). \<lparr>msg_role = role c, timestamp = now_time (clock i),
                   msg_parts = map part_view (parts c)\<rparr>) (enumerate 0 (history sess))"
  let ?v = "\<lparr>view_id = sid, view_title = title sess, view_created_at = created_at sess,
             messages = ?ms\<rparr>"
  have 1: "get_session clock sid s = Inr ?v" using g by (rule get_session_present)
  have 2: "length (messages ?v) = length (history sess)" by simp
  have 3: "\<forall>i < length (history sess).
                 messages ?v ! i =
                   \<lparr>msg_role = role (history sess ! i), timestamp = now_time (clock i),
                    msg_parts = map part_view (parts (history sess ! i))\<rparr>"
    by (simp add: nth_enumerate_eq)
  have 4: "(\<forall>i < length (history sess). now_time (clock i) = t)
                \<longrightarrow> (\<forall>i < length (history sess). timestamp (messages ?v ! i) = t)"
    by (simp add: nth_enumerate_eq)
  show "\<exists>v. get_session clock sid s = Inr v
          \<and> length (messages v) = length (history sess)
          \<and> (\<forall>i < length (history sess).
                 messages v ! i =
                   \<lparr>msg_role = role (history sess ! i), timestamp = now_time (clock i),
                    msg_parts = map part_view (parts (history sess ! i))\<rparr>)
          \<and> ((\<forall>i < length (history sess). now_time (clock i) = t)
                \<longrightarrow> (\<forall>i < length (history sess). timestamp (messages v ! i) = t))"
    by (rule exI [of _ ?v]) (intro conjI, rule 1, rule 2, rule 3, rule 4)
  show "get_session clock sid s = get_session clock' sid s
          \<longleftrightarrow> (\<forall>i < length (history sess). now_time (clock i) = now_time (clock' i))"
    by (simp add: get_session_present [OF g] messages_eq_iff del: map_eq_conv)
qed

theorem get_session_timestamps_witness:
  "dict_get (chat_sessions
      \<lparr>chat_sessions = [(''session_1_100'', \<lparr>history = [\<lparr>role = ''user'', parts = [TextPart ''hi'']\<rparr>,
                  \<lparr>role = ''model'', parts = [TextPart ''hello'']\<rparr>],
       created_at = ''2024-01-01T10:00:00'', title = ''hi'', pinned = False\<rparr>)],
      current_session_id = Some ''session_1_100''\<rparr>) ''session_1_100''
     = Some \<lparr>history = [\<lparr>role = ''user'', parts = [TextPart ''hi'']\<rparr>,
                  \<lparr>role = ''model'', parts = [TextPart ''hello'']\<rparr>],
       created_at = ''2024-01-01T10:00:00'', title = ''hi'', pinned = False\<rparr>
   \<and> get_session ((!) [\<lparr>dt_hour = 10, dt_minute = 59, dt_second = 1\<rparr>, \<lparr>dt_hour = 10, dt_minute = 59, dt_second = 30\<rparr>])
         ''session_1_100''
         \<lparr>chat_sessions = [(''session_1_100'', \<lparr>history = [\<lparr>role = ''user'', parts = [TextPart ''hi'']\<rparr>,
                  \<lparr>role = ''model'', parts = [TextPart ''hello'']\<rparr>],
       created_at = ''2024-01-01T10:00:00'', title = ''hi'', pinned = False\<rparr>)],
      current_session_id = Some ''session_1_100''\<rparr>
     = get_session ((!) [\<lparr>dt_hour = 10, dt_minute = 59, dt_second = 50\<rparr>, \<lparr>dt_hour = 10, dt_minute = 59, dt_second = 55\<rparr>])
         ''session_1_100''
         \<lparr>chat_sessions = [(''session_1_100'', \<lparr>history = [\<lparr>role = ''user'', parts = [TextPart ''hi'']\<rparr>,
                  \<lparr>role = ''model'', parts = [TextPart ''hello'']\<rparr>],
       created_at = ''2024-01-01T10:00:00'', title = ''hi'', pinned = False\<rparr>)],
      current_session_id = Some ''session_1_100''\<rparr>"
proof -
  let ?d = "\<lparr>history = [\<lparr>role = ''user'', parts = [TextPart ''hi'']\<rparr>,
                  \<lparr>role = ''model'', parts = [TextPart ''hello'']\<rparr>],
       created_at = ''2024-01-01T10:00:00'', title = ''hi'', pinned = False\<rparr>"
  let ?s = "\<lparr>chat_sessions = [(''session_1_100'', ?d)],
              current_session_id = Some ''session_1_100''\<rparr>"
  let ?c = "((!) [\<lparr>dt_hour = 10, dt_minute = 59, dt_second = 1\<rparr>, \<lparr>dt_hour = 10, dt_minute = 59, dt_second = 30\<rparr>])"
  let ?c' = "((!) [\<lparr>dt_hour = 10, dt_minute = 59, dt_second = 50\<rparr>, \<lparr>dt_hour = 10, dt_minute = 59, dt_second = 55\<rparr>])"
  have h: "dict_get (chat_sessions ?s) ''session_1_100'' = Some ?d" by simp
  have n0: "now_time (?c 0) = now_time (?c' 0)" by code_simp
  have n1: "now_time (?c (Suc 0)) = now_time (?c' (Suc 0))" by code_simp
  have e: "\<forall>i < length (history ?d). now_time (?c i) = now_time (?c' i)"
    using n0 n1 by (simp add: All_less_Suc)
  note t = mp [OF get_session_timestamps [of ?s "''session_1_100''" ?d ?c "''10:59''" ?c'] h]
  have "get_session ?c ''session_1_100'' ?s = get_session ?c' ''session_1_100'' ?s"
    by (rule iffD2 [OF conjunct2 [OF t] e])
  with h show ?thesis by (intro conjI)
qed

end
